theory Spec2Isabelle
  imports Main
begin

section \<open>Text and calendar primitives of the host language\<close>

text \<open>
  The selection pipeline of \<^verbatim>\<open>src/app.py\<close> works on text cells and calendar dates.
  A text is a \<^typ>\<open>string\<close>; a character is a code point below 256, so the character
  classes below are the tables of \<^verbatim>\<open>str.isspace\<close>, \<^verbatim>\<open>str.isdigit\<close> and
  \<^verbatim>\<open>str.lower\<close> cut to that range. A cell that the CSV reader left empty (NaN)
  is \<^term>\<open>None\<close>.
\<close>

definition isspace :: "char \<Rightarrow> bool" where
  "isspace c = (c \<in> set [CHR 0x09, CHR 0x0A, CHR 0x0B, CHR 0x0C, CHR 0x0D,
                          CHR 0x1C, CHR 0x1D, CHR 0x1E, CHR 0x1F, CHR 0x20,
                          CHR 0x85, CHR 0xA0])"

definition isdigit :: "char \<Rightarrow> bool" where
  "isdigit c = (c \<in> set (''0123456789'' @ [CHR 0xB2, CHR 0xB3, CHR 0xB9]))"

definition upper_chars :: string where
  "upper_chars = ''ABCDEFGHIJKLMNOPQRSTUVWXYZ'' @
     [CHR 0xC0, CHR 0xC1, CHR 0xC2, CHR 0xC3, CHR 0xC4, CHR 0xC5, CHR 0xC6, CHR 0xC7,
      CHR 0xC8, CHR 0xC9, CHR 0xCA, CHR 0xCB, CHR 0xCC, CHR 0xCD, CHR 0xCE, CHR 0xCF,
      CHR 0xD0, CHR 0xD1, CHR 0xD2, CHR 0xD3, CHR 0xD4, CHR 0xD5, CHR 0xD6,
      CHR 0xD8, CHR 0xD9, CHR 0xDA, CHR 0xDB, CHR 0xDC, CHR 0xDD, CHR 0xDE]"

definition lower_chars :: string where
  "lower_chars = ''abcdefghijklmnopqrstuvwxyz'' @
     [CHR 0xE0, CHR 0xE1, CHR 0xE2, CHR 0xE3, CHR 0xE4, CHR 0xE5, CHR 0xE6, CHR 0xE7,
      CHR 0xE8, CHR 0xE9, CHR 0xEA, CHR 0xEB, CHR 0xEC, CHR 0xED, CHR 0xEE, CHR 0xEF,
      CHR 0xF0, CHR 0xF1, CHR 0xF2, CHR 0xF3, CHR 0xF4, CHR 0xF5, CHR 0xF6,
      CHR 0xF8, CHR 0xF9, CHR 0xFA, CHR 0xFB, CHR 0xFC, CHR 0xFD, CHR 0xFE]"

definition lower_char :: "char \<Rightarrow> char" where
  "lower_char c = (case map_of (zip upper_chars lower_chars) c of None \<Rightarrow> c | Some l \<Rightarrow> l)"

definition lower :: "string \<Rightarrow> string" where
  "lower s = map lower_char s"

definition strip :: "string \<Rightarrow> string" where
  "strip s = rev (dropWhile isspace (rev (dropWhile isspace s)))"

text \<open>
  \<^verbatim>\<open>str.split()\<close> without a separator: the maximal runs of characters that are not
  white space. The first argument is the run being read.
\<close>

fun split_run :: "string \<Rightarrow> string \<Rightarrow> string list" where
  "split_run w [] = (if w = [] then [] else [w])"
| "split_run w (c # cs) =
     (if isspace c then (if w = [] then split_run [] cs else w # split_run [] cs)
      else split_run (w @ [c]) cs)"

definition split_ws :: "string \<Rightarrow> string list" where
  "split_ws s = split_run [] s"

definition startswith :: "string \<Rightarrow> string \<Rightarrow> bool" where
  "startswith s p = (take (length p) s = p)"

text \<open>The slice \<^verbatim>\<open>s[-n:]\<close>: the last \<open>n\<close> characters, all of \<open>s\<close> when it is shorter.\<close>

definition last_chars :: "nat \<Rightarrow> string \<Rightarrow> string" where
  "last_chars n s = drop (length s - n) s"

text \<open>\<^verbatim>\<open>astype(str)\<close> writes an empty cell as the text \<^verbatim>\<open>nan\<close>; \<^verbatim>\<open>fillna("")\<close> as the empty text.\<close>

definition astype_str :: "string option \<Rightarrow> string" where
  "astype_str v = (case v of None \<Rightarrow> ''nan'' | Some s \<Rightarrow> s)"

definition fillna_empty :: "string option \<Rightarrow> string" where
  "fillna_empty v = (case v of None \<Rightarrow> '''' | Some s \<Rightarrow> s)"

text \<open>
  A calendar date is its year, month and day, ordered lexicographically as
  \<^verbatim>\<open>datetime.date\<close> is. Adding a \<^verbatim>\<open>timedelta\<close> of \<open>n\<close> days steps to the next
  calendar day \<open>n\<close> times (the range check of the library at year 9999 is left out).
\<close>

record date =
  year :: nat
  month :: nat
  day :: nat

definition date_lt :: "date \<Rightarrow> date \<Rightarrow> bool" where
  "date_lt a b = (year a < year b \<or> (year a = year b \<and>
                    (month a < month b \<or> (month a = month b \<and> day a < day b))))"

definition is_leap :: "nat \<Rightarrow> bool" where
  "is_leap y = (y mod 4 = 0 \<and> (y mod 100 \<noteq> 0 \<or> y mod 400 = 0))"

definition days_in_month :: "nat \<Rightarrow> nat \<Rightarrow> nat" where
  "days_in_month y m =
     (if m = 2 then (if is_leap y then 29 else 28)
      else if m \<in> set [4, 6, 9, 11] then 30 else 31)"

definition tomorrow :: "date \<Rightarrow> date" where
  "tomorrow d =
     (if day d < days_in_month (year d) (month d)
        then \<lparr>year = year d, month = month d, day = day d + 1\<rparr>
      else if month d < 12 then \<lparr>year = year d, month = month d + 1, day = 1\<rparr>
      else \<lparr>year = year d + 1, month = 1, day = 1\<rparr>)"

primrec add_days :: "nat \<Rightarrow> date \<Rightarrow> date" where
  "add_days 0 d = d"
| "add_days (Suc n) d = tomorrow (add_days n d)"

text \<open>
  Decimal text of a number, padding with zeros on the left, and
  \<^verbatim>\<open>date.isoformat()\<close>, which is also \<^verbatim>\<open>str\<close> of a date: \<^verbatim>\<open>%04d-%02d-%02d\<close>.
\<close>

definition digit_char :: "nat \<Rightarrow> char" where
  "digit_char k = ''0123456789'' ! k"

fun decimal :: "nat \<Rightarrow> string" where
  "decimal n = (if n < 10 then [digit_char n] else decimal (n div 10) @ [digit_char (n mod 10)])"

declare decimal.simps [simp del]

definition zfill :: "nat \<Rightarrow> string \<Rightarrow> string" where
  "zfill w s = replicate (w - length s) CHR ''0'' @ s"

definition isoformat :: "date \<Rightarrow> string" where
  "isoformat d = zfill 4 (decimal (year d)) @ ''-'' @ zfill 2 (decimal (month d)) @ ''-''
                   @ zfill 2 (decimal (day d))"

text \<open>Reading decimal text back; used to show that \<^const>\<open>isoformat\<close> loses nothing.\<close>

definition digit_val :: "char \<Rightarrow> nat" where
  "digit_val c = (case map_of (zip ''0123456789'' [0, 1, 2, 3, 4, 5, 6, 7, 8, 9]) c of
                    None \<Rightarrow> 0 | Some k \<Rightarrow> k)"

definition decimal_val :: "string \<Rightarrow> nat" where
  "decimal_val s = foldl (\<lambda>a c. 10 * a + digit_val c) 0 s"


section \<open>Constants and helper functions of the module\<close>

definition REQUIRED_GENESYS_COLUMNS :: "string list" where
  "REQUIRED_GENESYS_COLUMNS =
     [''inin-outbound-id'', ''borrower_id'', ''full_name'', ''phone'',
      ''CallRecordLastResult-phone'', ''CallRecordLastAgentWrapup-phone'']"

definition ALLOWED_WRAPUPS :: "string set" where
  "ALLOWED_WRAPUPS =
     {''call back'', ''reject the call'', ''i dont need money'', ''i don't need money''}"

definition HISTORY_COLUMNS :: "string list" where
  "HISTORY_COLUMNS =
     [''id'', ''inin_outbound_id'', ''borrower_id'', ''selected_at'', ''allowed_again_at'']"

definition normalize_digits :: "string option \<Rightarrow> string" where
  "normalize_digits v = (case v of None \<Rightarrow> '''' | Some s \<Rightarrow> filter isdigit s)"

definition first_name :: "string option \<Rightarrow> string" where
  "first_name v =
     (case v of None \<Rightarrow> ''''
      | Some s \<Rightarrow> (case split_ws (strip s) of [] \<Rightarrow> '''' | p # _ \<Rightarrow> p))"


section \<open>Tables\<close>

text \<open>
  A table is the list of its rows, in file order; a computation on a column is the same
  computation on every row. The Genesys export arrives as its column names (as
  \<^verbatim>\<open>normalize_columns\<close> leaves them) and, per row, the cells of the six columns that
  the pipeline reads; cells of a column that the file lacks are never read, since the
  run stops at the column check.
\<close>

record genesys_row =
  g_inin_outbound_id :: "string option"
  g_borrower_id :: "string option"
  g_full_name :: "string option"
  g_phone :: "string option"
  g_last_result :: "string option"
  g_last_wrapup :: "string option"

record genesys_file =
  g_name :: string
  g_columns :: "string list"
  g_rows :: "genesys_row list"

text \<open>
  The history file, likewise. Its two date columns hold what
  \<^verbatim>\<open>pd.to_datetime(..., errors="coerce").dt.date\<close> reads from the cell, and its id column
  what \<^verbatim>\<open>pd.to_numeric(..., errors="coerce")\<close> followed by \<^verbatim>\<open>astype("int64")\<close>
  reads: \<^term>\<open>None\<close> is a cell that does not parse.
\<close>

record raw_history_row =
  raw_id :: "int option"
  raw_inin_outbound_id :: "string option"
  raw_borrower_id :: "string option"
  raw_selected_at :: "date option"
  raw_allowed_again_at :: "date option"

record history_file =
  h_columns :: "string list"
  h_rows :: "raw_history_row list"

text \<open>
  A ledger row. The id column holds the decimal text of an integer throughout and is
  modelled by that integer. The two date columns hold date objects in the loaded
  history, ISO text in the rows that a run creates and in the ledger it returns, and
  both kinds side by side while the two are concatenated; \<open>'d\<close> is the cell type.
\<close>

record 'd history_row =
  h_id :: int
  h_inin_outbound_id :: string
  h_borrower_id :: string
  h_selected_at :: 'd
  h_allowed_again_at :: 'd

definition map_dates :: "('a \<Rightarrow> 'b) \<Rightarrow> 'a history_row \<Rightarrow> 'b history_row" where
  "map_dates f e =
     \<lparr>h_id = h_id e, h_inin_outbound_id = h_inin_outbound_id e,
      h_borrower_id = h_borrower_id e,
      h_selected_at = f (h_selected_at e), h_allowed_again_at = f (h_allowed_again_at e)\<rparr>"

text \<open>\<^verbatim>\<open>str\<close> of a cell that is either a date object or already a text.\<close>

definition cell_str :: "date + string \<Rightarrow> string" where
  "cell_str c = (case c of Inl d \<Rightarrow> isoformat d | Inr s \<Rightarrow> s)"

text \<open>A row of \<^verbatim>\<open>new_history_rows\<close> before its id is inserted.\<close>

record new_row =
  n_inin_outbound_id :: string
  n_borrower_id :: string
  n_selected_at :: string
  n_allowed_again_at :: string

text \<open>
  A row of the working frame \<^verbatim>\<open>df\<close>, with the seventeen columns that the audit file
  is made of (the audit renames \<^verbatim>\<open>borrower_id_norm\<close> to \<^verbatim>\<open>borrower_id\<close>).
\<close>

record df_row =
  df_source_filename :: string
  df_campaign_run_at :: string
  df_borrower_id_norm :: string
  df_inin_outbound_id :: string
  df_full_name :: "string option"
  df_phone_raw :: string
  df_phone_full :: string
  df_phone_10 :: string
  df_first_name :: string
  df_filter_cooldown_pass :: bool
  df_filter_result_pass :: bool
  df_filter_wrapup_pass :: bool
  df_filter_phone_pass :: bool
  df_is_selected_final :: bool
  df_drop_reason :: string
  df_selected_at :: string
  df_allowed_again_at :: string

record campaign_row =
  camp_country_code :: string
  camp_phone :: string
  camp_first_name :: string

record metrics =
  registros_entrada :: nat
  removidos_cooldown :: nat
  removidos_result :: nat
  removidos_wrapup :: nat
  removidos_phone :: nat
  seleccionados_finales :: nat
  nuevos_en_historico :: nat
  registros_campana :: nat

text \<open>
  The clock is read once per run: \<^verbatim>\<open>now\<close> in the zone \<^verbatim>\<open>America/Mexico_City\<close>,
  of which the run uses the date and three formatted texts.
\<close>

record clock =
  today :: date
  run_ts :: string
  run_date :: string
  run_hhmm :: string

record outputs =
  out_metrics :: metrics
  combined_history :: "string history_row list"
  audit_df :: "df_row list"
  campaign_df :: "campaign_row list"
  out_run_date :: string
  out_run_hhmm :: string

text \<open>Every \<^verbatim>\<open>raise\<close> of the module is a \<^verbatim>\<open>ValueError\<close> with its message.\<close>

datatype error = ValueError string

text \<open>\<^verbatim>\<open>repr\<close> of a list of column names, as the messages interpolate it.\<close>

fun repr_items :: "string list \<Rightarrow> string" where
  "repr_items [] = []"
| "repr_items [c] = [CHR 0x27] @ c @ [CHR 0x27]"
| "repr_items (c # cs) = [CHR 0x27] @ c @ [CHR 0x27] @ '', '' @ repr_items cs"

definition repr_list :: "string list \<Rightarrow> string" where
  "repr_list cs = ''['' @ repr_items cs @ '']''"

text \<open>
  \<^verbatim>\<open>drop_duplicates(subset=..., keep="first")\<close>: one pass that keeps a row unless the
  key it has on the subset was met before.
\<close>

fun drop_seen :: "('a \<Rightarrow> 'k) \<Rightarrow> 'k list \<Rightarrow> 'a list \<Rightarrow> 'a list" where
  "drop_seen key seen [] = []"
| "drop_seen key seen (x # xs) =
     (if key x \<in> set seen then drop_seen key seen xs
      else x # drop_seen key (key x # seen) xs)"

definition drop_duplicates :: "('a \<Rightarrow> 'k) \<Rightarrow> 'a list \<Rightarrow> 'a list" where
  "drop_duplicates key xs = drop_seen key [] xs"

text \<open>The maximum of a column of ids; the run asks for it on a non-empty column only.\<close>

fun max_list :: "int list \<Rightarrow> int" where
  "max_list [] = 0"
| "max_list (x # xs) = fold max xs x"


section \<open>Ledger loader\<close>

text \<open>
  \<^verbatim>\<open>load_history_df\<close>, lines 69 to 107. Without a file the history is the empty table.
  With one, the column check, the date check and the id check follow in this order;
  a loaded row reads its parsed cells only after the checks found every one present.
\<close>

definition MSG_HISTORY_COLUMNS :: string where
  "MSG_HISTORY_COLUMNS =
     ''El archivo historico no tiene el formato esperado. Columnas faltantes: ''"

definition MSG_HISTORY_DATES :: string where
  "MSG_HISTORY_DATES =
     ''El historico contiene fechas invalidas en 'selected_at' o 'allowed_again_at'.''"

definition MSG_HISTORY_ID :: string where
  "MSG_HISTORY_ID = ''El historico contiene valores invalidos en la columna 'id'.''"

definition MSG_GENESYS_COLUMNS :: string where
  "MSG_GENESYS_COLUMNS =
     ''El archivo Genesys no contiene todas las columnas requeridas. Faltan: ''"

definition loaded_row :: "raw_history_row \<Rightarrow> date history_row" where
  "loaded_row r =
     \<lparr>h_id = the (raw_id r),
      h_inin_outbound_id = strip (astype_str (raw_inin_outbound_id r)),
      h_borrower_id = strip (astype_str (raw_borrower_id r)),
      h_selected_at = the (raw_selected_at r),
      h_allowed_again_at = the (raw_allowed_again_at r)\<rparr>"

definition load_history_df :: "history_file option \<Rightarrow> error + date history_row list" where
  "load_history_df uploaded_file =
     (case uploaded_file of
        None \<Rightarrow> Inr []
      | Some f \<Rightarrow>
         (let missing = filter (\<lambda>c. c \<notin> set (h_columns f)) HISTORY_COLUMNS in
          if missing \<noteq> [] then Inl (ValueError (MSG_HISTORY_COLUMNS @ repr_list missing))
          else
           (let invalid_selected = length (filter (\<lambda>r. raw_selected_at r = None) (h_rows f));
                invalid_allowed = length (filter (\<lambda>r. raw_allowed_again_at r = None) (h_rows f))
            in if invalid_selected > 0 \<or> invalid_allowed > 0
                 then Inl (ValueError MSG_HISTORY_DATES)
               else if list_ex (\<lambda>r. raw_id r = None) (h_rows f)
                 then Inl (ValueError MSG_HISTORY_ID)
               else Inr (map loaded_row (h_rows f)))))"


section \<open>Filter pipeline\<close>

text \<open>Line 130: the borrowers of the history rows whose \<^verbatim>\<open>allowed_again_at\<close> is after today.\<close>

definition blocked_borrowers :: "date \<Rightarrow> date history_row list \<Rightarrow> string set" where
  "blocked_borrowers tod history_df =
     set (map h_borrower_id (filter (\<lambda>e. date_lt tod (h_allowed_again_at e)) history_df))"

text \<open>
  Lines 174 to 187: the column starts as \<^verbatim>\<open>selected\<close> and four masked assignments
  overwrite it in turn.
\<close>

definition assign_drop_reason :: "bool \<Rightarrow> bool \<Rightarrow> bool \<Rightarrow> bool \<Rightarrow> string" where
  "assign_drop_reason cooldown_pass result_pass wrapup_pass phone_pass =
     (let r0 = ''selected'';
          r1 = (if \<not> cooldown_pass then ''cooldown'' else r0);
          r2 = (if cooldown_pass \<and> \<not> result_pass then ''result'' else r1);
          r3 = (if cooldown_pass \<and> result_pass \<and> \<not> wrapup_pass then ''wrapup'' else r2);
          r4 = (if cooldown_pass \<and> result_pass \<and> wrapup_pass \<and> \<not> phone_pass
                  then ''invalid_phone'' else r3)
      in r4)"

text \<open>Lines 134 to 187 on one row of the export.\<close>

definition df_row_of :: "string \<Rightarrow> clock \<Rightarrow> string set \<Rightarrow> genesys_row \<Rightarrow> df_row" where
  "df_row_of source now blocked g =
     (let borrower_id_norm = strip (astype_str (g_borrower_id g));
          inin_outbound_id = strip (astype_str (g_inin_outbound_id g));
          result_raw = fillna_empty (g_last_result g);
          wrap_raw = fillna_empty (g_last_wrapup g);
          cooldown_pass = (borrower_id_norm \<notin> blocked);
          result_pass = (result_raw = [] \<or> startswith result_raw ''ININ-OUTBOUND'');
          wrap_norm = lower (strip wrap_raw);
          wrapup_pass = (wrap_norm = [] \<or> wrap_norm \<in> ALLOWED_WRAPUPS);
          phone_raw = fillna_empty (g_phone g);
          phone_full = normalize_digits (Some phone_raw);
          phone_10 = last_chars 10 phone_full;
          phone_pass = (length phone_10 = 10);
          is_selected_final = (cooldown_pass \<and> result_pass \<and> wrapup_pass \<and> phone_pass);
          selected_at = isoformat (today now);
          allowed_again_at = isoformat (add_days 7 (today now))
      in \<lparr>df_source_filename = source,
          df_campaign_run_at = run_ts now,
          df_borrower_id_norm = borrower_id_norm,
          df_inin_outbound_id = inin_outbound_id,
          df_full_name = g_full_name g,
          df_phone_raw = phone_raw,
          df_phone_full = phone_full,
          df_phone_10 = phone_10,
          df_first_name = first_name (g_full_name g),
          df_filter_cooldown_pass = cooldown_pass,
          df_filter_result_pass = result_pass,
          df_filter_wrapup_pass = wrapup_pass,
          df_filter_phone_pass = phone_pass,
          df_is_selected_final = is_selected_final,
          df_drop_reason = assign_drop_reason cooldown_pass result_pass wrapup_pass phone_pass,
          df_selected_at = (if is_selected_final then selected_at else []),
          df_allowed_again_at = (if is_selected_final then allowed_again_at else [])\<rparr>)"

definition build_df :: "string \<Rightarrow> clock \<Rightarrow> genesys_row list \<Rightarrow> date history_row list \<Rightarrow> df_row list" where
  "build_df source now rows history_df =
     map (df_row_of source now (blocked_borrowers (today now) history_df)) rows"


section \<open>Campaign projection and ledger reconciler\<close>

text \<open>Lines 189 to 199.\<close>

definition campaign_of :: "df_row list \<Rightarrow> campaign_row list" where
  "campaign_of df =
     map (\<lambda>r. \<lparr>camp_country_code = ''52'', camp_phone = df_phone_10 r,
               camp_first_name = df_first_name r\<rparr>)
         (filter df_is_selected_final df)"

text \<open>
  Lines 202 to 244. The key of a candidate and the key of a history row are compared
  as texts: \<^verbatim>\<open>existing_keys\<close> is built from the history after \<^verbatim>\<open>astype(str)\<close>.
\<close>

definition new_key :: "new_row \<Rightarrow> string \<times> string \<times> string" where
  "new_key r = (n_inin_outbound_id r, n_borrower_id r, n_selected_at r)"

definition existing_keys :: "date history_row list \<Rightarrow> (string \<times> string \<times> string) set" where
  "existing_keys history_df =
     set (map (\<lambda>e. (h_inin_outbound_id e, h_borrower_id e, isoformat (h_selected_at e)))
              history_df)"

definition candidate_rows :: "df_row list \<Rightarrow> new_row list" where
  "candidate_rows df =
     drop_duplicates new_key
       (map (\<lambda>r. \<lparr>n_inin_outbound_id = strip (df_inin_outbound_id r),
                  n_borrower_id = strip (df_borrower_id_norm r),
                  n_selected_at = df_selected_at r,
                  n_allowed_again_at = df_allowed_again_at r\<rparr>)
            (filter df_is_selected_final df))"

definition max_id :: "date history_row list \<Rightarrow> int" where
  "max_id history_df = (if length history_df \<noteq> 0 then max_list (map h_id history_df) else 0)"

definition with_id :: "int \<Rightarrow> new_row \<Rightarrow> string history_row" where
  "with_id i r =
     \<lparr>h_id = i, h_inin_outbound_id = n_inin_outbound_id r, h_borrower_id = n_borrower_id r,
      h_selected_at = n_selected_at r, h_allowed_again_at = n_allowed_again_at r\<rparr>"

definition surviving_candidates :: "df_row list \<Rightarrow> date history_row list \<Rightarrow> new_row list" where
  "surviving_candidates df history_df =
     filter (\<lambda>r. new_key r \<notin> existing_keys history_df) (candidate_rows df)"

definition new_history_rows :: "df_row list \<Rightarrow> date history_row list \<Rightarrow> string history_row list" where
  "new_history_rows df history_df =
     (let surviving = surviving_candidates df history_df;
          m = max_id history_df
      in map (\<lambda>(i, r). with_id i r) (zip [m + 1 .. m + int (length surviving)] surviving))"

text \<open>
  Lines 246 to 255. The final \<^verbatim>\<open>drop_duplicates\<close> compares the cells themselves, where a
  date object is never equal to a text; only then are the date columns turned into text.
\<close>

definition row_key :: "'d history_row \<Rightarrow> string \<times> string \<times> 'd" where
  "row_key e = (h_inin_outbound_id e, h_borrower_id e, h_selected_at e)"

definition combine_history :: "date history_row list \<Rightarrow> string history_row list \<Rightarrow> string history_row list" where
  "combine_history history_df new_rows =
     map (map_dates cell_str)
       (drop_duplicates row_key (map (map_dates Inl) history_df @ map (map_dates Inr) new_rows))"


section \<open>The run\<close>

text \<open>
  \<^verbatim>\<open>compute_outputs\<close>, lines 110 to 306: \<^term>\<open>run_pipeline\<close> is its body from line 130
  on, once both files are read.
\<close>

definition run_metrics :: "df_row list \<Rightarrow> string history_row list \<Rightarrow> campaign_row list \<Rightarrow> metrics" where
  "run_metrics df new_rows campaign =
     \<lparr>registros_entrada = length df,
      removidos_cooldown = length (filter (\<lambda>r. \<not> df_filter_cooldown_pass r) df),
      removidos_result =
        length (filter (\<lambda>r. df_filter_cooldown_pass r \<and> \<not> df_filter_result_pass r) df),
      removidos_wrapup =
        length (filter (\<lambda>r. df_filter_cooldown_pass r \<and> df_filter_result_pass r
                              \<and> \<not> df_filter_wrapup_pass r) df),
      removidos_phone =
        length (filter (\<lambda>r. df_filter_cooldown_pass r \<and> df_filter_result_pass r
                              \<and> df_filter_wrapup_pass r \<and> \<not> df_filter_phone_pass r) df),
      seleccionados_finales = length (filter df_is_selected_final df),
      nuevos_en_historico = length new_rows,
      registros_campana = length campaign\<rparr>"

definition run_pipeline :: "clock \<Rightarrow> string \<Rightarrow> genesys_row list \<Rightarrow> date history_row list \<Rightarrow> outputs" where
  "run_pipeline now source rows history_df =
     (let df = build_df source now rows history_df;
          campaign = campaign_of df;
          new_rows = new_history_rows df history_df
      in \<lparr>out_metrics = run_metrics df new_rows campaign,
          combined_history = combine_history history_df new_rows,
          audit_df = df,
          campaign_df = campaign,
          out_run_date = run_date now,
          out_run_hhmm = run_hhmm now\<rparr>)"

definition compute_outputs :: "clock \<Rightarrow> genesys_file \<Rightarrow> history_file option \<Rightarrow> error + outputs" where
  "compute_outputs now genesys history =
     (let missing_genesys = filter (\<lambda>c. c \<notin> set (g_columns genesys)) REQUIRED_GENESYS_COLUMNS in
      if missing_genesys \<noteq> []
        then Inl (ValueError (MSG_GENESYS_COLUMNS @ repr_list missing_genesys))
      else (case load_history_df history of
              Inl e \<Rightarrow> Inl e
            | Inr history_df \<Rightarrow> Inr (run_pipeline now (g_name genesys) (g_rows genesys) history_df)))"


section \<open>The ledger file, written and read back\<close>

text \<open>
  \<^verbatim>\<open>to_csv_bytes\<close>, lines 65 and 66, writes the returned ledger with \<^verbatim>\<open>to_csv\<close>: every
  cell as its text. The loader reads the file with \<^verbatim>\<open>read_csv(dtype=str)\<close>, line 73, which
  gives back the text of a cell, except that a cell whose text is one of the reader's
  missing-value texts is read as a missing cell. \<^term>\<open>read_cell\<close> is that reading of one
  cell. A \<^typ>\<open>history_file\<close> holds a file after \<^verbatim>\<open>to_numeric\<close> and \<^verbatim>\<open>to_datetime\<close>, so
  \<^term>\<open>reads_back\<close> relates a file to the ledger it was written from: the columns are the
  five of the ledger, the ids are the numbers written, the outbound and borrower cells
  are read with \<^term>\<open>read_cell\<close>, and each date cell parses to a date whose ISO text is
  the text written.
\<close>

definition NA_VALUES :: "string set" where
  "NA_VALUES =
     {[], ''#N/A'', ''#N/A N/A'', ''#NA'', ''-1.#IND'', ''-1.#QNAN'', ''-NaN'', ''-nan'',
      ''1.#IND'', ''1.#QNAN'', ''<NA>'', ''N/A'', ''NA'', ''NULL'', ''NaN'', ''None'',
      ''n/a'', ''nan'', ''null''}"

definition read_cell :: "string \<Rightarrow> string option" where
  "read_cell s = (if s \<in> NA_VALUES then None else Some s)"

definition row_reads_back :: "raw_history_row \<Rightarrow> string history_row \<Rightarrow> bool" where
  "row_reads_back r e =
     (raw_id r = Some (h_id e)
      \<and> raw_inin_outbound_id r = read_cell (h_inin_outbound_id e)
      \<and> raw_borrower_id r = read_cell (h_borrower_id e)
      \<and> map_option isoformat (raw_selected_at r) = Some (h_selected_at e)
      \<and> map_option isoformat (raw_allowed_again_at r) = Some (h_allowed_again_at e))"

definition reads_back :: "history_file \<Rightarrow> string history_row list \<Rightarrow> bool" where
  "reads_back f rows = (h_columns f = HISTORY_COLUMNS \<and> list_all2 row_reads_back (h_rows f) rows)"

text \<open>
  An id survives the file when the loader, lines 104 and 105, gets it back: the text
  \<^verbatim>\<open>nan\<close> does, being what \<^verbatim>\<open>astype(str)\<close> makes of a missing cell.
\<close>

definition survives_csv :: "string \<Rightarrow> bool" where
  "survives_csv s = (astype_str (read_cell s) = s)"


section \<open>The priority rule of the specification\<close>

text \<open>
  The drop reason as the specification words it: the pairs of a predicate and its reason
  are read in priority order, the first predicate that fails gives the reason, and the
  reason is \<^verbatim>\<open>selected\<close> when none fails.
\<close>

fun first_failing :: "(bool \<times> string) list \<Rightarrow> string" where
  "first_failing [] = ''selected''"
| "first_failing ((ok, reason) # rest) = (if ok then first_failing rest else reason)"


section \<open>Example tables\<close>

text \<open>
  A run on 2026-01-10. The ledger holds a row of borrower B-100 that is allowed again
  on the run date and a row of borrower B-200 that is allowed again on the next day.
  The export has four records: B-100 with a phone and a wrapup that pass; B-200 with a
  short phone; B-300, not in the ledger, with a short phone; and B-100 again under the
  same outbound id.
\<close>

definition ex_clock :: clock where
  "ex_clock = \<lparr>today = \<lparr>year = 2026, month = 1, day = 10\<rparr>, run_ts = ''2026-01-10 09:30:00'',
               run_date = ''10-01-2026'', run_hhmm = ''0930''\<rparr>"

definition ex_genesys :: genesys_file where
  "ex_genesys =
     \<lparr>g_name = ''genesys.csv'',
      g_columns = [''inin-outbound-id'', ''borrower_id'', ''full_name'', ''phone'',
                   ''CallRecordLastResult-phone'', ''CallRecordLastAgentWrapup-phone''],
      g_rows =
        [\<lparr>g_inin_outbound_id = Some ''OUT-1'', g_borrower_id = Some '' B-100 '',
          g_full_name = Some ''Ana Maria Lopez'', g_phone = Some ''+52 (55) 1234-5678'',
          g_last_result = None, g_last_wrapup = Some '' CALL BACK ''\<rparr>,
         \<lparr>g_inin_outbound_id = Some ''OUT-2'', g_borrower_id = Some ''B-200'',
          g_full_name = Some ''Luis Perez'', g_phone = Some ''12345'',
          g_last_result = None, g_last_wrapup = None\<rparr>,
         \<lparr>g_inin_outbound_id = Some ''OUT-3'', g_borrower_id = Some ''B-300'',
          g_full_name = None, g_phone = Some ''12345'',
          g_last_result = Some ''ININ-OUTBOUND-DONE'', g_last_wrapup = Some ''call back''\<rparr>,
         \<lparr>g_inin_outbound_id = Some ''OUT-1'', g_borrower_id = Some ''B-100'',
          g_full_name = Some ''Ana M'', g_phone = Some ''5512345678'',
          g_last_result = None, g_last_wrapup = None\<rparr>]\<rparr>"

definition ex_history :: history_file where
  "ex_history =
     \<lparr>h_columns = [''id'', ''inin_outbound_id'', ''borrower_id'', ''selected_at'', ''allowed_again_at''],
      h_rows =
        [\<lparr>raw_id = Some 3, raw_inin_outbound_id = Some ''OUT-0'', raw_borrower_id = Some '' B-100'',
          raw_selected_at = Some \<lparr>year = 2026, month = 1, day = 3\<rparr>,
          raw_allowed_again_at = Some \<lparr>year = 2026, month = 1, day = 10\<rparr>\<rparr>,
         \<lparr>raw_id = Some 7, raw_inin_outbound_id = Some ''OUT-9'', raw_borrower_id = Some ''B-200'',
          raw_selected_at = Some \<lparr>year = 2026, month = 1, day = 4\<rparr>,
          raw_allowed_again_at = Some \<lparr>year = 2026, month = 1, day = 11\<rparr>\<rparr>]\<rparr>"

text \<open>The loaded ledger, the working frame and the outputs of that run.\<close>

definition ex_ledger :: "date history_row list" where
  "ex_ledger =
     [\<lparr>h_id = 3, h_inin_outbound_id = ''OUT-0'', h_borrower_id = ''B-100'',
       h_selected_at = \<lparr>year = 2026, month = 1, day = 3\<rparr>,
       h_allowed_again_at = \<lparr>year = 2026, month = 1, day = 10\<rparr>\<rparr>,
      \<lparr>h_id = 7, h_inin_outbound_id = ''OUT-9'', h_borrower_id = ''B-200'',
       h_selected_at = \<lparr>year = 2026, month = 1, day = 4\<rparr>,
       h_allowed_again_at = \<lparr>year = 2026, month = 1, day = 11\<rparr>\<rparr>]"

definition ex_audit_row :: "string \<Rightarrow> string \<Rightarrow> string option \<Rightarrow> string \<Rightarrow> string \<Rightarrow> string
    \<Rightarrow> string \<Rightarrow> bool \<Rightarrow> bool \<Rightarrow> string \<Rightarrow> df_row" where
  "ex_audit_row b outb nm raw full ten fnm cool ph reason =
     \<lparr>df_source_filename = ''genesys.csv'', df_campaign_run_at = ''2026-01-10 09:30:00'',
      df_borrower_id_norm = b, df_inin_outbound_id = outb, df_full_name = nm,
      df_phone_raw = raw, df_phone_full = full, df_phone_10 = ten, df_first_name = fnm,
      df_filter_cooldown_pass = cool, df_filter_result_pass = True,
      df_filter_wrapup_pass = True, df_filter_phone_pass = ph,
      df_is_selected_final = (cool \<and> ph), df_drop_reason = reason,
      df_selected_at = (if cool \<and> ph then ''2026-01-10'' else []),
      df_allowed_again_at = (if cool \<and> ph then ''2026-01-17'' else [])\<rparr>"

definition ex_audit :: "df_row list" where
  "ex_audit =
     [ex_audit_row ''B-100'' ''OUT-1'' (Some ''Ana Maria Lopez'') ''+52 (55) 1234-5678''
        ''525512345678'' ''5512345678'' ''Ana'' True True ''selected'',
      ex_audit_row ''B-200'' ''OUT-2'' (Some ''Luis Perez'') ''12345'' ''12345'' ''12345''
        ''Luis'' False False ''cooldown'',
      ex_audit_row ''B-300'' ''OUT-3'' None ''12345'' ''12345'' ''12345'' [] True False
        ''invalid_phone'',
      ex_audit_row ''B-100'' ''OUT-1'' (Some ''Ana M'') ''5512345678'' ''5512345678''
        ''5512345678'' ''Ana'' True True ''selected'']"

definition ex_new_rows :: "string history_row list" where
  "ex_new_rows =
     [\<lparr>h_id = 8, h_inin_outbound_id = ''OUT-1'', h_borrower_id = ''B-100'',
       h_selected_at = ''2026-01-10'', h_allowed_again_at = ''2026-01-17''\<rparr>]"

definition ex_combined :: "string history_row list" where
  "ex_combined =
     [\<lparr>h_id = 3, h_inin_outbound_id = ''OUT-0'', h_borrower_id = ''B-100'',
       h_selected_at = ''2026-01-03'', h_allowed_again_at = ''2026-01-10''\<rparr>,
      \<lparr>h_id = 7, h_inin_outbound_id = ''OUT-9'', h_borrower_id = ''B-200'',
       h_selected_at = ''2026-01-04'', h_allowed_again_at = ''2026-01-11''\<rparr>,
      \<lparr>h_id = 8, h_inin_outbound_id = ''OUT-1'', h_borrower_id = ''B-100'',
       h_selected_at = ''2026-01-10'', h_allowed_again_at = ''2026-01-17''\<rparr>]"

definition ex_outputs :: outputs where
  "ex_outputs =
     \<lparr>out_metrics =
        \<lparr>registros_entrada = 4, removidos_cooldown = 1, removidos_result = 0,
         removidos_wrapup = 0, removidos_phone = 1, seleccionados_finales = 2,
         nuevos_en_historico = 1, registros_campana = 2\<rparr>,
      combined_history = ex_combined,
      audit_df = ex_audit,
      campaign_df =
        [\<lparr>camp_country_code = ''52'', camp_phone = ''5512345678'', camp_first_name = ''Ana''\<rparr>,
         \<lparr>camp_country_code = ''52'', camp_phone = ''5512345678'', camp_first_name = ''Ana''\<rparr>],
      out_run_date = ''10-01-2026'', out_run_hhmm = ''0930''\<rparr>"

text \<open>The file that holds the ledger returned by that run, and what it loads to.\<close>

definition ex_history_reread :: history_file where
  "ex_history_reread =
     \<lparr>h_columns = [''id'', ''inin_outbound_id'', ''borrower_id'', ''selected_at'', ''allowed_again_at''],
      h_rows =
        [\<lparr>raw_id = Some 3, raw_inin_outbound_id = Some ''OUT-0'', raw_borrower_id = Some ''B-100'',
          raw_selected_at = Some \<lparr>year = 2026, month = 1, day = 3\<rparr>,
          raw_allowed_again_at = Some \<lparr>year = 2026, month = 1, day = 10\<rparr>\<rparr>,
         \<lparr>raw_id = Some 7, raw_inin_outbound_id = Some ''OUT-9'', raw_borrower_id = Some ''B-200'',
          raw_selected_at = Some \<lparr>year = 2026, month = 1, day = 4\<rparr>,
          raw_allowed_again_at = Some \<lparr>year = 2026, month = 1, day = 11\<rparr>\<rparr>,
         \<lparr>raw_id = Some 8, raw_inin_outbound_id = Some ''OUT-1'', raw_borrower_id = Some ''B-100'',
          raw_selected_at = Some \<lparr>year = 2026, month = 1, day = 10\<rparr>,
          raw_allowed_again_at = Some \<lparr>year = 2026, month = 1, day = 17\<rparr>\<rparr>]\<rparr>"

definition ex_reread :: "date history_row list" where
  "ex_reread =
     [\<lparr>h_id = 3, h_inin_outbound_id = ''OUT-0'', h_borrower_id = ''B-100'',
       h_selected_at = \<lparr>year = 2026, month = 1, day = 3\<rparr>,
       h_allowed_again_at = \<lparr>year = 2026, month = 1, day = 10\<rparr>\<rparr>,
      \<lparr>h_id = 7, h_inin_outbound_id = ''OUT-9'', h_borrower_id = ''B-200'',
       h_selected_at = \<lparr>year = 2026, month = 1, day = 4\<rparr>,
       h_allowed_again_at = \<lparr>year = 2026, month = 1, day = 11\<rparr>\<rparr>,
      \<lparr>h_id = 8, h_inin_outbound_id = ''OUT-1'', h_borrower_id = ''B-100'',
       h_selected_at = \<lparr>year = 2026, month = 1, day = 10\<rparr>,
       h_allowed_again_at = \<lparr>year = 2026, month = 1, day = 17\<rparr>\<rparr>]"

text \<open>
  A history file in which two rows share one key triple and only the second one is still
  in cooldown on 2026-01-10, an export with one record of that borrower, and the file
  that holds the ledger returned by the run on them.
\<close>

definition dup_genesys :: genesys_file where
  "dup_genesys =
     \<lparr>g_name = ''genesys.csv'',
      g_columns = [''inin-outbound-id'', ''borrower_id'', ''full_name'', ''phone'',
                   ''CallRecordLastResult-phone'', ''CallRecordLastAgentWrapup-phone''],
      g_rows =
        [\<lparr>g_inin_outbound_id = Some ''OUT-1'', g_borrower_id = Some ''B-100'',
          g_full_name = Some ''Ana'', g_phone = Some ''5512345678'',
          g_last_result = None, g_last_wrapup = None\<rparr>]\<rparr>"

definition dup_history :: history_file where
  "dup_history =
     \<lparr>h_columns = [''id'', ''inin_outbound_id'', ''borrower_id'', ''selected_at'', ''allowed_again_at''],
      h_rows =
        [\<lparr>raw_id = Some 1, raw_inin_outbound_id = Some ''OUT-5'', raw_borrower_id = Some ''B-100'',
          raw_selected_at = Some \<lparr>year = 2026, month = 1, day = 1\<rparr>,
          raw_allowed_again_at = Some \<lparr>year = 2026, month = 1, day = 8\<rparr>\<rparr>,
         \<lparr>raw_id = Some 2, raw_inin_outbound_id = Some ''OUT-5'', raw_borrower_id = Some ''B-100'',
          raw_selected_at = Some \<lparr>year = 2026, month = 1, day = 1\<rparr>,
          raw_allowed_again_at = Some \<lparr>year = 2026, month = 1, day = 15\<rparr>\<rparr>]\<rparr>"

definition dup_history_reread :: history_file where
  "dup_history_reread =
     \<lparr>h_columns = [''id'', ''inin_outbound_id'', ''borrower_id'', ''selected_at'', ''allowed_again_at''],
      h_rows =
        [\<lparr>raw_id = Some 1, raw_inin_outbound_id = Some ''OUT-5'', raw_borrower_id = Some ''B-100'',
          raw_selected_at = Some \<lparr>year = 2026, month = 1, day = 1\<rparr>,
          raw_allowed_again_at = Some \<lparr>year = 2026, month = 1, day = 8\<rparr>\<rparr>]\<rparr>"

text \<open>Two history files with one and with two rows whose dates do not parse.\<close>

definition bad_history_1 :: history_file where
  "bad_history_1 =
     \<lparr>h_columns = [''id'', ''inin_outbound_id'', ''borrower_id'', ''selected_at'', ''allowed_again_at''],
      h_rows =
        [\<lparr>raw_id = Some 1, raw_inin_outbound_id = Some ''OUT-5'', raw_borrower_id = Some ''B-100'',
          raw_selected_at = None,
          raw_allowed_again_at = Some \<lparr>year = 2026, month = 1, day = 8\<rparr>\<rparr>,
         \<lparr>raw_id = Some 2, raw_inin_outbound_id = Some ''OUT-6'', raw_borrower_id = Some ''B-200'',
          raw_selected_at = Some \<lparr>year = 2026, month = 1, day = 2\<rparr>,
          raw_allowed_again_at = Some \<lparr>year = 2026, month = 1, day = 9\<rparr>\<rparr>]\<rparr>"

definition bad_history_2 :: history_file where
  "bad_history_2 =
     \<lparr>h_columns = [''id'', ''inin_outbound_id'', ''borrower_id'', ''selected_at'', ''allowed_again_at''],
      h_rows =
        [\<lparr>raw_id = Some 1, raw_inin_outbound_id = Some ''OUT-5'', raw_borrower_id = Some ''B-100'',
          raw_selected_at = None,
          raw_allowed_again_at = Some \<lparr>year = 2026, month = 1, day = 8\<rparr>\<rparr>,
         \<lparr>raw_id = Some 2, raw_inin_outbound_id = Some ''OUT-6'', raw_borrower_id = Some ''B-200'',
          raw_selected_at = Some \<lparr>year = 2026, month = 1, day = 2\<rparr>,
          raw_allowed_again_at = None\<rparr>]\<rparr>"

definition bad_history_3 :: history_file where
  "bad_history_3 =
     \<lparr>h_columns = [''inin_outbound_id'', ''borrower_id'', ''selected_at'', ''allowed_again_at''],
      h_rows =
        [\<lparr>raw_id = None, raw_inin_outbound_id = Some ''OUT-5'', raw_borrower_id = Some ''B-100'',
          raw_selected_at = None,
          raw_allowed_again_at = Some \<lparr>year = 2026, month = 1, day = 8\<rparr>\<rparr>]\<rparr>"

text \<open>
  A history file with one row, of a borrower who is allowed again on 2026-01-11, and the
  clock of a run on that day.
\<close>

definition late_history :: history_file where
  "late_history =
     \<lparr>h_columns = [''id'', ''inin_outbound_id'', ''borrower_id'', ''selected_at'', ''allowed_again_at''],
      h_rows =
        [\<lparr>raw_id = Some 5, raw_inin_outbound_id = Some ''OUT-7'', raw_borrower_id = Some ''B-100'',
          raw_selected_at = Some \<lparr>year = 2026, month = 1, day = 4\<rparr>,
          raw_allowed_again_at = Some \<lparr>year = 2026, month = 1, day = 11\<rparr>\<rparr>]\<rparr>"

definition late_loaded :: "date history_row list" where
  "late_loaded =
     [\<lparr>h_id = 5, h_inin_outbound_id = ''OUT-7'', h_borrower_id = ''B-100'',
       h_selected_at = \<lparr>year = 2026, month = 1, day = 4\<rparr>,
       h_allowed_again_at = \<lparr>year = 2026, month = 1, day = 11\<rparr>\<rparr>]"

definition late_ledger_first :: "string history_row list" where
  "late_ledger_first =
     [\<lparr>h_id = 5, h_inin_outbound_id = ''OUT-7'', h_borrower_id = ''B-100'',
       h_selected_at = ''2026-01-04'', h_allowed_again_at = ''2026-01-11''\<rparr>]"

definition next_clock :: clock where
  "next_clock = \<lparr>today = \<lparr>year = 2026, month = 1, day = 11\<rparr>, run_ts = ''2026-01-11 09:30:00'',
                 run_date = ''11-01-2026'', run_hhmm = ''0930''\<rparr>"

definition dup_ledger_first :: "string history_row list" where
  "dup_ledger_first =
     [\<lparr>h_id = 1, h_inin_outbound_id = ''OUT-5'', h_borrower_id = ''B-100'',
       h_selected_at = ''2026-01-01'', h_allowed_again_at = ''2026-01-08''\<rparr>]"

definition dup_reread :: "date history_row list" where
  "dup_reread =
     [\<lparr>h_id = 1, h_inin_outbound_id = ''OUT-5'', h_borrower_id = ''B-100'',
       h_selected_at = \<lparr>year = 2026, month = 1, day = 1\<rparr>,
       h_allowed_again_at = \<lparr>year = 2026, month = 1, day = 8\<rparr>\<rparr>]"

definition dup_ledger_second :: "string history_row list" where
  "dup_ledger_second =
     [\<lparr>h_id = 1, h_inin_outbound_id = ''OUT-5'', h_borrower_id = ''B-100'',
       h_selected_at = ''2026-01-01'', h_allowed_again_at = ''2026-01-08''\<rparr>,
      \<lparr>h_id = 2, h_inin_outbound_id = ''OUT-1'', h_borrower_id = ''B-100'',
       h_selected_at = ''2026-01-10'', h_allowed_again_at = ''2026-01-17''\<rparr>]"


text \<open>
  An export with one record whose borrower id is \<^verbatim>\<open>NA\<close> between two spaces, the ledger
  that the run of 2026-01-10 on it returns without a history file, the file that holds
  that ledger as the loader reads it, with the borrower cell missing, and the ledger that
  the second run on that file returns.
\<close>

definition na_genesys :: genesys_file where
  "na_genesys =
     \<lparr>g_name = ''genesys.csv'',
      g_columns = [''inin-outbound-id'', ''borrower_id'', ''full_name'', ''phone'',
                   ''CallRecordLastResult-phone'', ''CallRecordLastAgentWrapup-phone''],
      g_rows =
        [\<lparr>g_inin_outbound_id = Some ''O1'', g_borrower_id = Some '' NA '',
          g_full_name = Some ''Ana'', g_phone = Some ''5512345678'',
          g_last_result = None, g_last_wrapup = None\<rparr>]\<rparr>"

definition na_ledger_first :: "string history_row list" where
  "na_ledger_first =
     [\<lparr>h_id = 1, h_inin_outbound_id = ''O1'', h_borrower_id = ''NA'',
       h_selected_at = ''2026-01-10'', h_allowed_again_at = ''2026-01-17''\<rparr>]"

definition na_history_reread :: history_file where
  "na_history_reread =
     \<lparr>h_columns = [''id'', ''inin_outbound_id'', ''borrower_id'', ''selected_at'', ''allowed_again_at''],
      h_rows =
        [\<lparr>raw_id = Some 1, raw_inin_outbound_id = Some ''O1'', raw_borrower_id = None,
          raw_selected_at = Some \<lparr>year = 2026, month = 1, day = 10\<rparr>,
          raw_allowed_again_at = Some \<lparr>year = 2026, month = 1, day = 17\<rparr>\<rparr>]\<rparr>"

definition na_ledger_second :: "string history_row list" where
  "na_ledger_second =
     [\<lparr>h_id = 1, h_inin_outbound_id = ''O1'', h_borrower_id = ''nan'',
       h_selected_at = ''2026-01-10'', h_allowed_again_at = ''2026-01-17''\<rparr>,
      \<lparr>h_id = 2, h_inin_outbound_id = ''O1'', h_borrower_id = ''NA'',
       h_selected_at = ''2026-01-10'', h_allowed_again_at = ''2026-01-17''\<rparr>]"

text \<open>
  An export with one record whose phone is nine decimal digits followed by the
  character SUPERSCRIPT TWO (code point 178), with every other cell passing.
\<close>

definition sup_genesys :: genesys_file where
  "sup_genesys =
     \<lparr>g_name = ''genesys.csv'',
      g_columns = [''inin-outbound-id'', ''borrower_id'', ''full_name'', ''phone'',
                   ''CallRecordLastResult-phone'', ''CallRecordLastAgentWrapup-phone''],
      g_rows =
        [\<lparr>g_inin_outbound_id = Some ''OUT-1'', g_borrower_id = Some ''B-100'',
          g_full_name = Some ''Ana'', g_phone = Some (''555123456'' @ [CHR 0xB2]),
          g_last_result = None, g_last_wrapup = None\<rparr>]\<rparr>"


section \<open>Properties of the primitives\<close>

lemma add_days_numeral [simp]:
  "add_days (numeral k) d = tomorrow (add_days (pred_numeral k) d)"
  by (simp add: numeral_eq_Suc)

subsection \<open>Dropping duplicates\<close>

lemma drop_seen_cong_set: "set seen = set seen' \<Longrightarrow> drop_seen key seen xs = drop_seen key seen' xs"
proof (induction xs arbitrary: seen seen')
  case Nil
  show ?case by simp
next
  case (Cons x xs)
  have "drop_seen key (key x # seen) xs = drop_seen key (key x # seen') xs"
    by (rule Cons.IH) (simp add: Cons.prems)
  moreover have "drop_seen key seen xs = drop_seen key seen' xs"
    by (rule Cons.IH) (rule Cons.prems)
  ultimately show ?case using Cons.prems by simp
qed

lemma drop_seen_subset: "set (drop_seen key seen xs) \<subseteq> set xs"
  by (induction xs arbitrary: seen) auto

lemma drop_seen_keys: "set (map key (drop_seen key seen xs)) = set (map key xs) - set seen"
  by (induction xs arbitrary: seen) auto

lemma drop_seen_distinct: "distinct (map key (drop_seen key seen xs))"
proof (induction xs arbitrary: seen)
  case Nil
  show ?case by simp
next
  case (Cons x xs)
  have "key x \<notin> set (map key (drop_seen key (key x # seen) xs))"
    unfolding drop_seen_keys by simp
  then show ?case using Cons.IH by simp
qed

lemma drop_seen_same:
  "distinct (map key xs) \<Longrightarrow> set (map key xs) \<inter> set seen = {} \<Longrightarrow> drop_seen key seen xs = xs"
proof (induction xs arbitrary: seen)
  case Nil
  show ?case by simp
next
  case (Cons x xs)
  have "drop_seen key (key x # seen) xs = xs"
    by (rule Cons.IH) (use Cons.prems in auto)
  then show ?case using Cons.prems by simp
qed

lemma drop_seen_append:
  "drop_seen key seen (xs @ ys) = drop_seen key seen xs @ drop_seen key (map key xs @ seen) ys"
proof (induction xs arbitrary: seen)
  case Nil
  show ?case by simp
next
  case (Cons x xs)
  show ?case
  proof (cases "key x \<in> set seen")
    case True
    have "drop_seen key (map key xs @ seen) ys = drop_seen key (map key (x # xs) @ seen) ys"
      by (rule drop_seen_cong_set) (use True in auto)
    then show ?thesis using True Cons.IH [of seen] by simp
  next
    case False
    have "drop_seen key (map key xs @ key x # seen) ys = drop_seen key (map key (x # xs) @ seen) ys"
      by (rule drop_seen_cong_set) auto
    then show ?thesis using False Cons.IH [of "key x # seen"] by simp
  qed
qed

lemma drop_seen_map:
  assumes "inj g" and "\<And>x. key' (f x) = g (key x)"
  shows "drop_seen key' (map g seen) (map f xs) = map f (drop_seen key seen xs)"
proof (induction xs arbitrary: seen)
  case Nil
  show ?case by simp
next
  case (Cons x xs)
  have mem: "g (key x) \<in> g ` set seen \<longleftrightarrow> key x \<in> set seen"
    using assms(1) by (auto dest: injD)
  show ?case using Cons.IH [of seen] Cons.IH [of "key x # seen"] mem
    by (simp add: assms(2))
qed

lemma drop_seen_first:
  "find (\<lambda>x. key x = k) (drop_seen key seen xs) =
     (if k \<in> set seen then None else find (\<lambda>x. key x = k) xs)"
  by (induction xs arbitrary: seen) auto

lemma drop_duplicates_first:
  "find (\<lambda>x. key x = k) (drop_duplicates key xs) = find (\<lambda>x. key x = k) xs"
  by (simp add: drop_duplicates_def drop_seen_first)

lemma drop_duplicates_same: "distinct (map key xs) \<Longrightarrow> drop_duplicates key xs = xs"
  by (simp add: drop_duplicates_def drop_seen_same)

lemma drop_duplicates_distinct: "distinct (map key (drop_duplicates key xs))"
  by (simp add: drop_duplicates_def drop_seen_distinct)

lemma drop_duplicates_keys: "set (map key (drop_duplicates key xs)) = set (map key xs)"
  using drop_seen_keys [of key "[]" xs] by (simp add: drop_duplicates_def)

lemma drop_duplicates_subset: "set (drop_duplicates key xs) \<subseteq> set xs"
  by (simp add: drop_duplicates_def drop_seen_subset)

lemma drop_duplicates_append_fresh:
  assumes "distinct (map key ys)" and "set (map key xs) \<inter> set (map key ys) = {}"
  shows "drop_duplicates key (xs @ ys) = drop_duplicates key xs @ ys"
proof -
  have "drop_seen key (map key xs @ []) ys = ys"
    by (rule drop_seen_same) (use assms in auto)
  then show ?thesis by (simp add: drop_duplicates_def drop_seen_append)
qed

lemma drop_duplicates_map:
  assumes "inj g" and "\<And>x. key' (f x) = g (key x)"
  shows "drop_duplicates key' (map f xs) = map f (drop_duplicates key xs)"
proof -
  have "drop_seen key' (map g []) (map f xs) = map f (drop_seen key [] xs)"
    using assms by (rule drop_seen_map)
  then show ?thesis by (simp add: drop_duplicates_def)
qed

subsection \<open>Stripping\<close>

lemma strip_idem: "strip (strip s) = strip s"
proof -
  define t where "t = dropWhile isspace s"
  define u where "u = rev (dropWhile isspace (rev t))"
  have su: "strip s = u"
    by (simp add: strip_def t_def u_def)
  have "rev (takeWhile isspace (rev t) @ dropWhile isspace (rev t)) = t"
    by (simp only: takeWhile_dropWhile_id rev_rev_ident)
  then have t_split: "t = u @ rev (takeWhile isspace (rev t))"
    by (simp only: rev_append u_def)
  have front: "dropWhile isspace u = u"
  proof (cases "u = []")
    case True
    then show ?thesis by simp
  next
    case False
    then have "hd t = hd u"
      using t_split by (metis hd_append2)
    moreover have "t \<noteq> []"
      using False t_split by auto
    then have "\<not> isspace (hd t)"
      unfolding t_def by (rule hd_dropWhile)
    ultimately show ?thesis
      by (simp add: dropWhile_eq_self_iff)
  qed
  have "strip u = rev (dropWhile isspace (rev u))"
    by (simp add: strip_def front)
  also have "\<dots> = u"
    by (simp add: u_def)
  finally show ?thesis
    by (simp add: su)
qed

subsection \<open>ISO text of a date\<close>

lemma digit_val_digit_char: "k < 10 \<Longrightarrow> digit_val (digit_char k) = k"
proof -
  assume "k < 10"
  then have "k \<in> {0, 1, 2, 3, 4, 5, 6, 7, 8, 9}" by auto
  then show ?thesis by (auto simp: digit_val_def digit_char_def)
qed

lemma decimal_val_snoc: "decimal_val (s @ [c]) = 10 * decimal_val s + digit_val c"
  by (simp add: decimal_val_def)

lemma decimal_val_decimal: "decimal_val (decimal n) = n"
proof (induction n rule: decimal.induct)
  case (1 n)
  show ?case
  proof (cases "n < 10")
    case True
    then show ?thesis
      by (subst decimal.simps) (simp add: decimal_val_def digit_val_digit_char)
  next
    case False
    have "decimal_val (decimal n) = 10 * decimal_val (decimal (n div 10)) + digit_val (digit_char (n mod 10))"
      using False by (subst decimal.simps) (simp add: decimal_val_snoc)
    also have "\<dots> = 10 * (n div 10) + n mod 10"
      using False "1.IH" by (simp add: digit_val_digit_char)
    finally show ?thesis by simp
  qed
qed

lemma decimal_val_zero_Cons: "decimal_val (CHR ''0'' # s) = decimal_val s"
  by (simp add: decimal_val_def digit_val_def)

lemma decimal_val_zeros: "decimal_val (replicate k CHR ''0'' @ s) = decimal_val s"
  by (induction k) (simp_all add: decimal_val_zero_Cons)

lemma decimal_val_zfill: "decimal_val (zfill w (decimal n)) = n"
  by (simp add: zfill_def decimal_val_zeros decimal_val_decimal)

lemma digit_char_not_dash: "k < 10 \<Longrightarrow> digit_char k \<noteq> CHR ''-''"
proof -
  assume "k < 10"
  then have "k \<in> {0, 1, 2, 3, 4, 5, 6, 7, 8, 9}" by auto
  then show ?thesis by (auto simp: digit_char_def)
qed

lemma decimal_no_dash: "CHR ''-'' \<notin> set (decimal n)"
proof (induction n rule: decimal.induct)
  case (1 n)
  show ?case
  proof (cases "n < 10")
    case True
    then show ?thesis using digit_char_not_dash [of n]
      by (subst decimal.simps) auto
  next
    case False
    then show ?thesis using "1.IH" digit_char_not_dash [of "n mod 10"]
      by (subst decimal.simps) auto
  qed
qed

lemma zfill_no_dash: "CHR ''-'' \<notin> set (zfill w (decimal n))"
  using decimal_no_dash [of n] by (auto simp: zfill_def)

lemma split_at_first:
  "x \<notin> set xs \<Longrightarrow> x \<notin> set xs' \<Longrightarrow> xs @ x # ys = xs' @ x # ys' \<Longrightarrow> xs = xs' \<and> ys = ys'"
proof (induction xs arbitrary: xs')
  case Nil
  then show ?case by (cases xs') auto
next
  case (Cons a xs)
  then show ?case by (cases xs') auto
qed

lemma isoformat_inj: "isoformat a = isoformat b \<Longrightarrow> a = b"
proof -
  assume eq: "isoformat a = isoformat b"
  let ?Y = "\<lambda>d. zfill 4 (decimal (year d))"
  let ?M = "\<lambda>d. zfill 2 (decimal (month d))"
  let ?D = "\<lambda>d. zfill 2 (decimal (day d))"
  have e1: "?Y a @ CHR ''-'' # (?M a @ CHR ''-'' # ?D a) = ?Y b @ CHR ''-'' # (?M b @ CHR ''-'' # ?D b)"
    using eq by (simp add: isoformat_def)
  have s1: "?Y a = ?Y b \<and> ?M a @ CHR ''-'' # ?D a = ?M b @ CHR ''-'' # ?D b"
    by (rule split_at_first [OF zfill_no_dash zfill_no_dash e1])
  then have e2: "?M a @ CHR ''-'' # ?D a = ?M b @ CHR ''-'' # ?D b" ..
  have s2: "?M a = ?M b \<and> ?D a = ?D b"
    by (rule split_at_first [OF zfill_no_dash zfill_no_dash e2])
  from s1 have y: "?Y a = ?Y b" ..
  from s2 have m: "?M a = ?M b" and d: "?D a = ?D b" by simp_all
  have "year a = year b" using arg_cong [OF y, of decimal_val] by (simp add: decimal_val_zfill)
  moreover have "month a = month b" using arg_cong [OF m, of decimal_val] by (simp add: decimal_val_zfill)
  moreover have "day a = day b" using arg_cong [OF d, of decimal_val] by (simp add: decimal_val_zfill)
  ultimately show ?thesis by simp
qed

lemma isoformat_not_empty: "isoformat d \<noteq> []"
  by (simp add: isoformat_def)

lemma date_lt_tomorrow: "date_lt d (tomorrow d)"
  by (simp add: date_lt_def tomorrow_def)

lemma date_lt_asym: "date_lt a b \<Longrightarrow> \<not> date_lt b a"
  by (auto simp: date_lt_def)

lemma date_lt_irrefl: "\<not> date_lt d d"
  by (simp add: date_lt_def)

lemma date_lt_trans: "date_lt a b \<Longrightarrow> date_lt b c \<Longrightarrow> date_lt a c"
  by (auto simp: date_lt_def)

lemma max_list_Max: "xs \<noteq> [] \<Longrightarrow> max_list xs = Max (set xs)"
proof (cases xs)
  case Nil
  assume "xs \<noteq> []"
  with Nil show ?thesis by simp
next
  case (Cons a list)
  show ?thesis unfolding Cons using Max.set_eq_fold [of a list] by simp
qed


section \<open>Properties of the pipeline\<close>

subsection \<open>The working frame\<close>

lemma df_row_of_cells:
  "df_source_filename (df_row_of source now blocked g) = source"
  "df_campaign_run_at (df_row_of source now blocked g) = run_ts now"
  "df_borrower_id_norm (df_row_of source now blocked g) = strip (astype_str (g_borrower_id g))"
  "df_inin_outbound_id (df_row_of source now blocked g) = strip (astype_str (g_inin_outbound_id g))"
  "df_full_name (df_row_of source now blocked g) = g_full_name g"
  "df_phone_raw (df_row_of source now blocked g) = fillna_empty (g_phone g)"
  "df_phone_full (df_row_of source now blocked g) = filter isdigit (fillna_empty (g_phone g))"
  "df_phone_10 (df_row_of source now blocked g) =
     last_chars 10 (filter isdigit (fillna_empty (g_phone g)))"
  "df_first_name (df_row_of source now blocked g) = first_name (g_full_name g)"
  by (simp_all add: df_row_of_def Let_def normalize_digits_def)

lemma df_row_of_filters:
  "df_filter_cooldown_pass (df_row_of source now blocked g) =
     (strip (astype_str (g_borrower_id g)) \<notin> blocked)"
  "df_filter_result_pass (df_row_of source now blocked g) =
     (fillna_empty (g_last_result g) = []
      \<or> startswith (fillna_empty (g_last_result g)) ''ININ-OUTBOUND'')"
  "df_filter_wrapup_pass (df_row_of source now blocked g) =
     (lower (strip (fillna_empty (g_last_wrapup g))) = []
      \<or> lower (strip (fillna_empty (g_last_wrapup g))) \<in> ALLOWED_WRAPUPS)"
  "df_filter_phone_pass (df_row_of source now blocked g) =
     (length (last_chars 10 (filter isdigit (fillna_empty (g_phone g)))) = 10)"
  by (simp_all add: df_row_of_def Let_def normalize_digits_def)

lemma df_row_of_derived:
  fixes source now blocked g
  defines "a \<equiv> df_row_of source now blocked g"
  shows "df_is_selected_final a =
           (df_filter_cooldown_pass a \<and> df_filter_result_pass a
            \<and> df_filter_wrapup_pass a \<and> df_filter_phone_pass a)"
    and "df_drop_reason a =
           assign_drop_reason (df_filter_cooldown_pass a) (df_filter_result_pass a)
             (df_filter_wrapup_pass a) (df_filter_phone_pass a)"
    and "df_selected_at a = (if df_is_selected_final a then isoformat (today now) else [])"
    and "df_allowed_again_at a =
           (if df_is_selected_final a then isoformat (add_days 7 (today now)) else [])"
  by (simp_all add: a_def df_row_of_def Let_def)

lemma assign_drop_reason_first_failing:
  "assign_drop_reason c r w p =
     first_failing [(c, ''cooldown''), (r, ''result''), (w, ''wrapup''), (p, ''invalid_phone'')]"
  by (simp add: assign_drop_reason_def)

lemma assign_drop_reason_selected:
  "assign_drop_reason c r w p = ''selected'' \<longleftrightarrow> c \<and> r \<and> w \<and> p"
  by (simp add: assign_drop_reason_def)

lemma compute_outputs_Inr:
  assumes "compute_outputs now genesys history = Inr out"
  shows "\<exists>ledger. load_history_df history = Inr ledger
           \<and> out = run_pipeline now (g_name genesys) (g_rows genesys) ledger"
  using assms by (auto simp: compute_outputs_def Let_def split: if_splits sum.splits)

lemma compute_outputs_ledger:
  assumes "compute_outputs now genesys history = Inr out"
    and "load_history_df history = Inr ledger"
  shows "out = run_pipeline now (g_name genesys) (g_rows genesys) ledger"
  using compute_outputs_Inr [OF assms(1)] assms(2) by auto

lemma audit_df_run:
  "audit_df (run_pipeline now source rows ledger) = build_df source now rows ledger"
  by (simp add: run_pipeline_def Let_def)

lemma audit_row_cases:
  assumes "compute_outputs now genesys history = Inr out" and "a \<in> set (audit_df out)"
  obtains ledger g where "load_history_df history = Inr ledger"
    and "g \<in> set (g_rows genesys)"
    and "a = df_row_of (g_name genesys) now (blocked_borrowers (today now) ledger) g"
proof -
  obtain ledger where l: "load_history_df history = Inr ledger"
    and o: "out = run_pipeline now (g_name genesys) (g_rows genesys) ledger"
    using compute_outputs_Inr [OF assms(1)] by blast
  from assms(2) obtain g where "g \<in> set (g_rows genesys)"
    and "a = df_row_of (g_name genesys) now (blocked_borrowers (today now) ledger) g"
    unfolding o audit_df_run build_df_def by auto
  with l show thesis by (rule that)
qed

lemma audit_row_nth:
  assumes "compute_outputs now genesys history = Inr out"
    and "load_history_df history = Inr ledger"
  shows "length (audit_df out) = length (g_rows genesys)"
    and "i < length (g_rows genesys) \<Longrightarrow>
           audit_df out ! i =
             df_row_of (g_name genesys) now (blocked_borrowers (today now) ledger)
               (g_rows genesys ! i)"
  unfolding compute_outputs_ledger [OF assms] audit_df_run build_df_def by simp_all

lemma assign_drop_reason_cases:
  "assign_drop_reason c r w p = ''cooldown'' \<longleftrightarrow> \<not> c"
  "assign_drop_reason c r w p = ''result'' \<longleftrightarrow> c \<and> \<not> r"
  "assign_drop_reason c r w p = ''wrapup'' \<longleftrightarrow> c \<and> r \<and> \<not> w"
  "assign_drop_reason c r w p = ''invalid_phone'' \<longleftrightarrow> c \<and> r \<and> w \<and> \<not> p"
  by (simp_all add: assign_drop_reason_def)

lemma length_filter_stages:
  "length (filter (\<lambda>x. \<not> c x) xs) + length (filter (\<lambda>x. c x \<and> \<not> r x) xs)
     + length (filter (\<lambda>x. c x \<and> r x \<and> \<not> w x) xs)
     + length (filter (\<lambda>x. c x \<and> r x \<and> w x \<and> \<not> p x) xs)
     + length (filter (\<lambda>x. c x \<and> r x \<and> w x \<and> p x) xs) = length xs"
  by (induction xs) auto

lemma drop_seen_length: "length (drop_seen key seen xs) \<le> length xs"
proof (induction xs arbitrary: seen)
  case Nil
  show ?case by simp
next
  case (Cons x xs)
  show ?case using Cons.IH [of seen] Cons.IH [of "key x # seen"] by simp
qed

lemma new_history_rows_length:
  "length (new_history_rows df ledger) = length (surviving_candidates df ledger)"
  by (simp add: new_history_rows_def Let_def)

lemma surviving_candidates_length:
  "length (surviving_candidates df ledger) \<le> length (filter df_is_selected_final df)"
proof -
  have "length (surviving_candidates df ledger) \<le> length (candidate_rows df)"
    by (simp add: surviving_candidates_def)
  also have "\<dots> \<le> length (filter df_is_selected_final df)"
    unfolding candidate_rows_def drop_duplicates_def
    by (rule order_trans [OF drop_seen_length]) simp
  finally show ?thesis .
qed

lemma build_df_selected:
  "filter df_is_selected_final (build_df source now rows ledger) =
     filter (\<lambda>a. df_filter_cooldown_pass a \<and> df_filter_result_pass a
                  \<and> df_filter_wrapup_pass a \<and> df_filter_phone_pass a)
       (build_df source now rows ledger)"
  by (rule filter_cong) (auto simp: build_df_def df_row_of_derived)

lemma build_df_reason:
  "a \<in> set (build_df source now rows ledger) \<Longrightarrow>
     df_drop_reason a =
       assign_drop_reason (df_filter_cooldown_pass a) (df_filter_result_pass a)
         (df_filter_wrapup_pass a) (df_filter_phone_pass a)"
  by (auto simp: build_df_def df_row_of_derived)

text \<open>
  The phone columns of every audit row: the raw phone is the cell with an empty cell read
  as the empty text; the normalised phone keeps the characters that \<^verbatim>\<open>isdigit\<close> accepts;
  the ten-digit form is its last ten characters; the predicate holds exactly when that
  form has length ten, which is when the normalised phone has at least ten characters.
\<close>

lemma phone_columns:
  assumes "compute_outputs now genesys history = Inr out" and "i < length (g_rows genesys)"
  shows "df_phone_raw (audit_df out ! i) = fillna_empty (g_phone (g_rows genesys ! i))
         \<and> df_phone_full (audit_df out ! i) = filter isdigit (df_phone_raw (audit_df out ! i))
         \<and> df_phone_10 (audit_df out ! i) =
             drop (length (df_phone_full (audit_df out ! i)) - 10) (df_phone_full (audit_df out ! i))
         \<and> (df_filter_phone_pass (audit_df out ! i) \<longleftrightarrow> length (df_phone_10 (audit_df out ! i)) = 10)
         \<and> (df_filter_phone_pass (audit_df out ! i) \<longleftrightarrow> 10 \<le> length (df_phone_full (audit_df out ! i)))"
proof -
  obtain ledger where l: "load_history_df history = Inr ledger"
    using compute_outputs_Inr [OF assms(1)] by blast
  have a: "audit_df out ! i =
      df_row_of (g_name genesys) now (blocked_borrowers (today now) ledger) (g_rows genesys ! i)"
    by (rule audit_row_nth(2) [OF assms(1) l assms(2)])
  show ?thesis
    unfolding a df_row_of_cells df_row_of_filters last_chars_def by auto
qed


subsection \<open>The reconciler\<close>

lemma map_zip_snd: "length xs = length ys \<Longrightarrow> map (\<lambda>p. f (snd p)) (zip xs ys) = map f ys"
  by (induction xs ys rule: list_induct2) simp_all

lemma map_zip_fst: "length xs = length ys \<Longrightarrow> map (\<lambda>p. f (fst p)) (zip xs ys) = map f xs"
  by (induction xs ys rule: list_induct2) simp_all

lemma distinct_key_comp: "inj g \<Longrightarrow> distinct (map key xs) \<Longrightarrow> distinct (map (\<lambda>x. g (key x)) xs)"
  by (induction xs) (auto dest: injD)

lemma distinct_key_comp_rev: "distinct (map (\<lambda>x. g (key x)) xs) \<Longrightarrow> distinct (map key xs)"
  by (induction xs) auto

lemma candidate_rows_distinct: "distinct (map new_key (candidate_rows df))"
  unfolding candidate_rows_def by (rule drop_duplicates_distinct)

lemma surviving_candidates_distinct: "distinct (map new_key (surviving_candidates df ledger))"
  unfolding surviving_candidates_def
  by (rule distinct_map_filter) (rule candidate_rows_distinct)

lemma surviving_candidates_fresh:
  "r \<in> set (surviving_candidates df ledger) \<Longrightarrow> new_key r \<notin> existing_keys ledger"
  by (simp add: surviving_candidates_def)

lemma row_key_with_id: "row_key (with_id i r) = new_key r"
  by (simp add: row_key_def with_id_def new_key_def)

lemma new_history_rows_keys:
  "map row_key (new_history_rows df ledger) = map new_key (surviving_candidates df ledger)"
proof -
  let ?S = "surviving_candidates df ledger"
  let ?ids = "[max_id ledger + 1 .. max_id ledger + int (length ?S)]"
  have len: "length ?ids = length ?S" by simp
  have "map row_key (new_history_rows df ledger) = map (\<lambda>p. new_key (snd p)) (zip ?ids ?S)"
    by (simp add: new_history_rows_def Let_def row_key_with_id case_prod_unfold comp_def)
  also have "\<dots> = map new_key ?S" using len by (rule map_zip_snd)
  finally show ?thesis .
qed

lemma new_history_rows_ids:
  "map h_id (new_history_rows df ledger) =
     [max_id ledger + 1 .. max_id ledger + int (length (surviving_candidates df ledger))]"
proof -
  let ?S = "surviving_candidates df ledger"
  let ?ids = "[max_id ledger + 1 .. max_id ledger + int (length ?S)]"
  have len: "length ?ids = length ?S" by simp
  have "map h_id (new_history_rows df ledger) = map (\<lambda>p. id (fst p)) (zip ?ids ?S)"
    by (simp add: new_history_rows_def Let_def with_id_def case_prod_unfold comp_def)
  also have "\<dots> = map id ?ids" using len by (rule map_zip_fst)
  finally show ?thesis by simp
qed

lemma new_history_rows_nth:
  "new_history_rows df ledger =
     map (\<lambda>j. with_id (max_id ledger + 1 + int j) (surviving_candidates df ledger ! j))
       [0..<length (surviving_candidates df ledger)]"
proof (rule nth_equalityI)
  show "length (new_history_rows df ledger) =
      length (map (\<lambda>j. with_id (max_id ledger + 1 + int j) (surviving_candidates df ledger ! j))
        [0..<length (surviving_candidates df ledger)])"
    by (simp add: new_history_rows_length)
next
  fix j
  assume "j < length (new_history_rows df ledger)"
  then have j: "j < length (surviving_candidates df ledger)"
    by (simp add: new_history_rows_length)
  then show "new_history_rows df ledger ! j =
      map (\<lambda>j. with_id (max_id ledger + 1 + int j) (surviving_candidates df ledger ! j))
        [0..<length (surviving_candidates df ledger)] ! j"
    by (simp add: new_history_rows_def Let_def)
qed

lemma max_list_ge: "x \<in> set xs \<Longrightarrow> x \<le> max_list xs"
proof -
  assume x: "x \<in> set xs"
  then have "xs \<noteq> []" by auto
  then have "max_list xs = Max (set xs)" by (rule max_list_Max)
  with x show ?thesis by simp
qed

lemma max_id_ge: "e \<in> set ledger \<Longrightarrow> h_id e \<le> max_id ledger"
proof -
  assume e: "e \<in> set ledger"
  then have "ledger \<noteq> []" by auto
  moreover have "h_id e \<le> max_list (map h_id ledger)"
    by (rule max_list_ge) (use e in simp)
  ultimately show ?thesis by (simp add: max_id_def)
qed

lemma max_id_Max: "max_id ledger = (if ledger = [] then 0 else Max (h_id ` set ledger))"
  by (simp add: max_id_def max_list_Max)

lemma map_dates_Inl_str: "map_dates cell_str (map_dates Inl e) = map_dates isoformat e"
  by (simp add: map_dates_def cell_str_def)

lemma map_dates_Inr_str: "map_dates cell_str (map_dates Inr e) = e"
  by (simp add: map_dates_def cell_str_def)

lemma row_key_map_dates:
  "row_key (map_dates f e) = (case row_key e of (ob, b, d) \<Rightarrow> (ob, b, f d))"
  by (simp add: row_key_def map_dates_def)

lemma inj_third: "inj f \<Longrightarrow> inj (\<lambda>(ob :: string, b :: string, d). (ob, b, f d))"
  by (auto simp: inj_on_def)

lemma combine_history_append:
  assumes "distinct (map row_key new_rows)"
  shows "combine_history ledger new_rows =
           map (map_dates isoformat) (drop_duplicates row_key ledger) @ new_rows"
proof -
  let ?old = "map (map_dates (Inl :: date \<Rightarrow> date + string)) ledger"
  let ?new = "map (map_dates (Inr :: string \<Rightarrow> date + string)) new_rows"
  have inl: "inj (\<lambda>(ob :: string, b :: string, d :: date). (ob, b, (Inl d :: date + string)))"
    by (rule inj_third) simp
  have inr: "inj (\<lambda>(ob :: string, b :: string, d :: string). (ob, b, (Inr d :: date + string)))"
    by (rule inj_third) simp
  have "distinct (map (\<lambda>e. (\<lambda>(ob, b, d). (ob, b, (Inr d :: date + string))) (row_key e)) new_rows)"
    using inr assms by (rule distinct_key_comp)
  then have "distinct (map row_key ?new)"
    by (simp add: row_key_map_dates comp_def)
  moreover have "set (map row_key ?old) \<inter> set (map row_key ?new) = {}"
    by (auto simp: row_key_def map_dates_def)
  ultimately have "drop_duplicates row_key (?old @ ?new) = drop_duplicates row_key ?old @ ?new"
    by (rule drop_duplicates_append_fresh)
  also have "drop_duplicates row_key ?old = map (map_dates Inl) (drop_duplicates row_key ledger)"
    using inl by (rule drop_duplicates_map) (simp add: row_key_def map_dates_def)
  finally show ?thesis
    by (simp add: combine_history_def map_dates_Inl_str map_dates_Inr_str comp_def)
qed

lemma new_history_rows_distinct: "distinct (map row_key (new_history_rows df ledger))"
  unfolding new_history_rows_keys by (rule surviving_candidates_distinct)

lemma combined_history_run:
  "combined_history (run_pipeline now source rows ledger) =
     map (map_dates isoformat) (drop_duplicates row_key ledger)
       @ new_history_rows (build_df source now rows ledger) ledger"
  by (simp add: run_pipeline_def Let_def combine_history_append new_history_rows_distinct)

lemma existing_keys_text: "existing_keys ledger = set (map row_key (map (map_dates isoformat) ledger))"
  by (simp add: existing_keys_def row_key_def map_dates_def comp_def)

lemma map_dates_isoformat_inj: "map_dates isoformat a = map_dates isoformat b \<Longrightarrow> a = b"
  by (cases a, cases b) (auto simp: map_dates_def dest: isoformat_inj)

lemma text_keys_distinct:
  assumes "distinct (map row_key ledger)"
  shows "distinct (map row_key (map (map_dates isoformat) ledger))"
proof -
  have inj: "inj (\<lambda>(ob :: string, b :: string, d). (ob, b, isoformat d))"
    by (rule inj_third) (auto simp: inj_on_def dest: isoformat_inj)
  have "distinct (map (\<lambda>e. (\<lambda>(ob, b, d). (ob, b, isoformat d)) (row_key e)) ledger)"
    using inj assms by (rule distinct_key_comp)
  then show ?thesis by (simp add: row_key_map_dates comp_def)
qed

lemma text_keys_distinct_rev:
  assumes "distinct (map row_key (map (map_dates isoformat) ledger))"
  shows "distinct (map row_key ledger)"
proof -
  have "distinct (map (\<lambda>e. (\<lambda>(ob, b, d). (ob, b, isoformat d)) (row_key e)) ledger)"
    using assms by (simp add: row_key_map_dates comp_def)
  then show ?thesis by (rule distinct_key_comp_rev)
qed

lemma ledger_keys_distinct:
  assumes "distinct (map row_key ledger)"
  shows "distinct (map row_key (map (map_dates isoformat) ledger @ new_history_rows df ledger))"
proof -
  have "set (map row_key (map (map_dates isoformat) ledger))
          \<inter> set (map row_key (new_history_rows df ledger)) = {}"
    unfolding new_history_rows_keys existing_keys_text [symmetric]
    using surviving_candidates_fresh [of _ df ledger] by auto
  with text_keys_distinct [OF assms] new_history_rows_distinct [of df ledger]
  show ?thesis by simp
qed

subsection \<open>A second run on the ledger of the first\<close>

lemma blocked_borrowers_mono:
  "set ledger \<subseteq> set ledger' \<Longrightarrow> blocked_borrowers d ledger \<subseteq> blocked_borrowers d ledger'"
  by (auto simp: blocked_borrowers_def)

lemma candidate_keys:
  "set (map new_key (candidate_rows df)) =
     (\<lambda>a. (strip (df_inin_outbound_id a), strip (df_borrower_id_norm a), df_selected_at a))
       ` {a \<in> set df. df_is_selected_final a}"
  unfolding candidate_rows_def drop_duplicates_keys
  by (auto simp: new_key_def image_iff)

lemma selected_under_smaller_set:
  assumes "blocked \<subseteq> blocked'" and "today now' = today now"
    and "df_is_selected_final (df_row_of source now' blocked' g)"
  shows "df_is_selected_final (df_row_of source now blocked g)"
    and "df_inin_outbound_id (df_row_of source now blocked g)
           = df_inin_outbound_id (df_row_of source now' blocked' g)"
    and "df_borrower_id_norm (df_row_of source now blocked g)
           = df_borrower_id_norm (df_row_of source now' blocked' g)"
    and "df_selected_at (df_row_of source now blocked g)
           = df_selected_at (df_row_of source now' blocked' g)"
proof -
  show sel: "df_is_selected_final (df_row_of source now blocked g)"
    using assms by (auto simp: df_row_of_derived df_row_of_filters)
  show "df_inin_outbound_id (df_row_of source now blocked g)
          = df_inin_outbound_id (df_row_of source now' blocked' g)"
    by (simp add: df_row_of_cells)
  show "df_borrower_id_norm (df_row_of source now blocked g)
          = df_borrower_id_norm (df_row_of source now' blocked' g)"
    by (simp add: df_row_of_cells)
  show "df_selected_at (df_row_of source now blocked g)
          = df_selected_at (df_row_of source now' blocked' g)"
    using sel assms(2,3) by (simp add: df_row_of_derived)
qed

lemma candidate_keys_mono:
  assumes "set ledger \<subseteq> set ledger'" and "today now' = today now"
  shows "set (map new_key (candidate_rows (build_df source now' rows ledger')))
           \<subseteq> set (map new_key (candidate_rows (build_df source now rows ledger)))"
proof
  fix k
  assume "k \<in> set (map new_key (candidate_rows (build_df source now' rows ledger')))"
  then obtain a' where a': "a' \<in> set (build_df source now' rows ledger')"
    and sel': "df_is_selected_final a'"
    and k: "k = (strip (df_inin_outbound_id a'), strip (df_borrower_id_norm a'), df_selected_at a')"
    unfolding candidate_keys by auto
  from a' obtain g where g: "g \<in> set rows"
    and a'_eq: "a' = df_row_of source now' (blocked_borrowers (today now) ledger') g"
    by (auto simp: build_df_def assms(2))
  define a where "a = df_row_of source now (blocked_borrowers (today now) ledger) g"
  have sub: "blocked_borrowers (today now) ledger \<subseteq> blocked_borrowers (today now) ledger'"
    using assms(1) by (rule blocked_borrowers_mono)
  note same = selected_under_smaller_set [OF sub assms(2) sel' [unfolded a'_eq],
      folded a_def a'_eq]
  have "a \<in> set (build_df source now rows ledger)"
    using g by (auto simp: build_df_def a_def)
  moreover have "df_is_selected_final a" by (rule same(1))
  moreover have "k = (strip (df_inin_outbound_id a), strip (df_borrower_id_norm a), df_selected_at a)"
    unfolding k by (simp add: same)
  ultimately show "k \<in> set (map new_key (candidate_rows (build_df source now rows ledger)))"
    unfolding candidate_keys by blast
qed

lemma candidate_keys_covered:
  "set (map new_key (candidate_rows df))
     \<subseteq> existing_keys ledger \<union> set (map new_key (surviving_candidates df ledger))"
  by (auto simp: surviving_candidates_def)

lemma second_run:
  assumes dist: "distinct (map row_key ledger)"
    and reread: "map (map_dates isoformat) ledger'
                 = combined_history (run_pipeline now source rows ledger)"
    and day: "today now' = today now"
  shows "surviving_candidates (build_df source now' rows ledger') ledger' = []"
    and "combined_history (run_pipeline now' source rows ledger')
           = combined_history (run_pipeline now source rows ledger)"
proof -
  let ?df = "build_df source now rows ledger" and ?df' = "build_df source now' rows ledger'"
  have first: "combined_history (run_pipeline now source rows ledger)
      = map (map_dates isoformat) ledger @ new_history_rows ?df ledger"
    by (simp add: combined_history_run drop_duplicates_same [OF dist])
  have sub: "set ledger \<subseteq> set ledger'"
  proof
    fix e
    assume "e \<in> set ledger"
    then have "map_dates isoformat e \<in> set (map (map_dates isoformat) ledger')"
      unfolding reread first by simp
    then obtain e' where "e' \<in> set ledger'" and "map_dates isoformat e' = map_dates isoformat e"
      by auto
    then show "e \<in> set ledger'" by (auto dest: map_dates_isoformat_inj)
  qed
  have keys': "existing_keys ledger'
      = existing_keys ledger \<union> set (map new_key (surviving_candidates ?df ledger))"
    unfolding existing_keys_text reread first by (simp add: new_history_rows_keys)
  have covered: "set (map new_key (candidate_rows ?df')) \<subseteq> existing_keys ledger'"
    using candidate_keys_mono [OF sub day, of source rows] candidate_keys_covered [of ?df ledger]
    unfolding keys' by blast
  show none: "surviving_candidates ?df' ledger' = []"
    unfolding surviving_candidates_def filter_empty_conv using covered by auto
  have "distinct (map row_key (map (map_dates isoformat) ledger'))"
    unfolding reread first by (rule ledger_keys_distinct [OF dist])
  then have dist': "distinct (map row_key ledger')"
    by (rule text_keys_distinct_rev)
  have "new_history_rows ?df' ledger' = []"
    by (simp add: new_history_rows_def none)
  then have "combined_history (run_pipeline now' source rows ledger')
      = map (map_dates isoformat) ledger'"
    by (simp add: combined_history_run drop_duplicates_same [OF dist'])
  then show "combined_history (run_pipeline now' source rows ledger')
      = combined_history (run_pipeline now source rows ledger)"
    by (simp add: reread)
qed

lemma compute_outputs_other_history:
  assumes "compute_outputs now genesys history = Inr out"
    and "load_history_df history' = Inr ledger'"
  shows "compute_outputs now' genesys history'
           = Inr (run_pipeline now' (g_name genesys) (g_rows genesys) ledger')"
  using assms by (auto simp: compute_outputs_def Let_def split: if_splits)

lemma second_run_outputs:
  assumes "compute_outputs now genesys history = Inr out"
    and "load_history_df history = Inr ledger"
    and "distinct (map row_key ledger)"
    and "load_history_df history' = Inr ledger'"
    and "map (map_dates isoformat) ledger' = combined_history out"
    and "today now' = today now"
  shows "\<exists>out'. compute_outputs now' genesys history' = Inr out'
           \<and> combined_history out' = combined_history out
           \<and> new_history_rows (audit_df out') ledger' = []
           \<and> nuevos_en_historico (out_metrics out') = 0"
proof -
  have o: "out = run_pipeline now (g_name genesys) (g_rows genesys) ledger"
    by (rule compute_outputs_ledger [OF assms(1,2)])
  define out' where "out' = run_pipeline now' (g_name genesys) (g_rows genesys) ledger'"
  have run': "compute_outputs now' genesys history' = Inr out'"
    unfolding out'_def by (rule compute_outputs_other_history [OF assms(1,4)])
  note second = second_run [OF assms(3) assms(5) [unfolded o] assms(6)]
  have none: "new_history_rows (audit_df out') ledger' = []"
    by (simp add: out'_def audit_df_run new_history_rows_def second(1))
  have same: "combined_history out' = combined_history out"
    unfolding out'_def o by (rule second(2))
  have zero: "nuevos_en_historico (out_metrics out') = 0"
    using none by (simp add: out'_def run_pipeline_def Let_def run_metrics_def audit_df_run)
  from run' same none zero show ?thesis by blast
qed

subsection \<open>The ledger file read back\<close>

lemma survives_csv_iff: "survives_csv s \<longleftrightarrow> s = ''nan'' \<or> s \<notin> NA_VALUES"
  by (auto simp: survives_csv_def read_cell_def astype_str_def NA_VALUES_def)

lemma loaded_ids_stripped:
  assumes "load_history_df history = Inr ledger" and "e \<in> set ledger"
  shows "strip (h_inin_outbound_id e) = h_inin_outbound_id e"
    and "strip (h_borrower_id e) = h_borrower_id e"
proof -
  from assms obtain r where "e = loaded_row r"
    by (auto simp: load_history_df_def Let_def split: option.splits if_splits)
  then show "strip (h_inin_outbound_id e) = h_inin_outbound_id e"
    and "strip (h_borrower_id e) = h_borrower_id e"
    by (simp_all add: loaded_row_def strip_idem)
qed

lemma candidate_ids_stripped:
  assumes "r \<in> set (candidate_rows df)"
  shows "strip (n_inin_outbound_id r) = n_inin_outbound_id r"
    and "strip (n_borrower_id r) = n_borrower_id r"
proof -
  have "r \<in> set (map (\<lambda>a. \<lparr>n_inin_outbound_id = strip (df_inin_outbound_id a),
                 n_borrower_id = strip (df_borrower_id_norm a),
                 n_selected_at = df_selected_at a,
                 n_allowed_again_at = df_allowed_again_at a\<rparr>) (filter df_is_selected_final df))"
    by (rule subsetD [OF drop_duplicates_subset assms [unfolded candidate_rows_def]])
  then show "strip (n_inin_outbound_id r) = n_inin_outbound_id r"
    and "strip (n_borrower_id r) = n_borrower_id r"
    by (auto simp: strip_idem)
qed

lemma new_ids_stripped:
  assumes "e \<in> set (new_history_rows df ledger)"
  shows "strip (h_inin_outbound_id e) = h_inin_outbound_id e"
    and "strip (h_borrower_id e) = h_borrower_id e"
proof -
  from assms obtain j where j: "j < length (surviving_candidates df ledger)"
    and e: "e = with_id (max_id ledger + 1 + int j) (surviving_candidates df ledger ! j)"
    unfolding new_history_rows_nth by auto
  have "surviving_candidates df ledger ! j \<in> set (candidate_rows df)"
    using nth_mem [OF j] by (simp add: surviving_candidates_def)
  then show "strip (h_inin_outbound_id e) = h_inin_outbound_id e"
    and "strip (h_borrower_id e) = h_borrower_id e"
    unfolding e by (simp_all add: with_id_def candidate_ids_stripped)
qed

lemma returned_ids_stripped:
  assumes "compute_outputs now genesys history = Inr out"
    and "load_history_df history = Inr ledger"
    and "e \<in> set (combined_history out)"
  shows "strip (h_inin_outbound_id e) = h_inin_outbound_id e
         \<and> strip (h_borrower_id e) = h_borrower_id e"
proof -
  have o: "out = run_pipeline now (g_name genesys) (g_rows genesys) ledger"
    by (rule compute_outputs_ledger [OF assms(1,2)])
  from assms(3) consider
    (old) e' where "e' \<in> set ledger" and "e = map_dates isoformat e'"
    | (new) "e \<in> set (new_history_rows (build_df (g_name genesys) now (g_rows genesys) ledger) ledger)"
    unfolding o combined_history_run using drop_duplicates_subset [of row_key ledger] by auto
  then show ?thesis
  proof cases
    case old
    then show ?thesis
      using loaded_ids_stripped [OF assms(2) old(1)] by (simp add: map_dates_def)
  next
    case new
    then show ?thesis
      using new_ids_stripped [OF new] by simp
  qed
qed

lemma row_reads_back_loaded:
  assumes "row_reads_back r e"
    and "survives_csv (h_inin_outbound_id e)" and "survives_csv (h_borrower_id e)"
    and "strip (h_inin_outbound_id e) = h_inin_outbound_id e"
    and "strip (h_borrower_id e) = h_borrower_id e"
  shows "map_dates isoformat (loaded_row r) = e"
    and "raw_id r \<noteq> None" and "raw_selected_at r \<noteq> None" and "raw_allowed_again_at r \<noteq> None"
proof -
  from assms(1) obtain d1 d2 where "raw_selected_at r = Some d1" "isoformat d1 = h_selected_at e"
    "raw_allowed_again_at r = Some d2" "isoformat d2 = h_allowed_again_at e"
    "raw_id r = Some (h_id e)" "raw_inin_outbound_id r = read_cell (h_inin_outbound_id e)"
    "raw_borrower_id r = read_cell (h_borrower_id e)"
    by (auto simp: row_reads_back_def)
  then show "map_dates isoformat (loaded_row r) = e"
    and "raw_id r \<noteq> None" and "raw_selected_at r \<noteq> None" and "raw_allowed_again_at r \<noteq> None"
    using assms(2-5) by (simp_all add: map_dates_def loaded_row_def survives_csv_def)
qed

lemma reads_back_load:
  assumes "reads_back f rows"
    and "\<forall>e\<in>set rows. survives_csv (h_inin_outbound_id e) \<and> survives_csv (h_borrower_id e)"
    and "\<forall>e\<in>set rows. strip (h_inin_outbound_id e) = h_inin_outbound_id e
                        \<and> strip (h_borrower_id e) = h_borrower_id e"
  shows "load_history_df (Some f) = Inr (map loaded_row (h_rows f))"
    and "map (map_dates isoformat) (map loaded_row (h_rows f)) = rows"
proof -
  have cols: "h_columns f = HISTORY_COLUMNS"
    and all2: "list_all2 row_reads_back (h_rows f) rows"
    using assms(1) by (simp_all add: reads_back_def)
  have len: "length (h_rows f) = length rows"
    using all2 by (rule list_all2_lengthD)
  have row: "map_dates isoformat (loaded_row (h_rows f ! i)) = rows ! i
      \<and> raw_id (h_rows f ! i) \<noteq> None \<and> raw_selected_at (h_rows f ! i) \<noteq> None
      \<and> raw_allowed_again_at (h_rows f ! i) \<noteq> None" if "i < length rows" for i
  proof -
    have "row_reads_back (h_rows f ! i) (rows ! i)"
      using all2 that by (rule list_all2_nthD2)
    moreover have "rows ! i \<in> set rows"
      using that by simp
    ultimately show ?thesis
      using assms(2,3) row_reads_back_loaded [of "h_rows f ! i" "rows ! i"] by blast
  qed
  have ok: "raw_id r \<noteq> None \<and> raw_selected_at r \<noteq> None \<and> raw_allowed_again_at r \<noteq> None"
    if "r \<in> set (h_rows f)" for r
  proof -
    from that obtain i where "i < length (h_rows f)" and "r = h_rows f ! i"
      by (auto simp: in_set_conv_nth)
    then show ?thesis using row [of i] len by simp
  qed
  have "filter (\<lambda>c. c \<notin> set (h_columns f)) HISTORY_COLUMNS = []"
    by (simp add: cols)
  moreover have "filter (\<lambda>r. raw_selected_at r = None) (h_rows f) = []"
    and "filter (\<lambda>r. raw_allowed_again_at r = None) (h_rows f) = []"
    using ok by (auto simp: filter_empty_conv)
  moreover have "\<not> list_ex (\<lambda>r. raw_id r = None) (h_rows f)"
    using ok by (auto simp: list_ex_iff)
  ultimately show "load_history_df (Some f) = Inr (map loaded_row (h_rows f))"
    by (simp add: load_history_df_def Let_def)
  show "map (map_dates isoformat) (map loaded_row (h_rows f)) = rows"
    by (rule nth_equalityI) (use len row in simp_all)
qed

text \<open>
  Every ledger that a run returns has a file that reads it back: its dates are ISO texts
  of dates.
\<close>

lemma candidate_dates_iso:
  assumes "r \<in> set (candidate_rows (build_df source now rows ledger))"
  shows "n_selected_at r = isoformat (today now)"
    and "n_allowed_again_at r = isoformat (add_days 7 (today now))"
proof -
  have "r \<in> set (map (\<lambda>a. \<lparr>n_inin_outbound_id = strip (df_inin_outbound_id a),
                 n_borrower_id = strip (df_borrower_id_norm a),
                 n_selected_at = df_selected_at a,
                 n_allowed_again_at = df_allowed_again_at a\<rparr>)
        (filter df_is_selected_final (build_df source now rows ledger)))"
    by (rule subsetD [OF drop_duplicates_subset assms [unfolded candidate_rows_def]])
  then show "n_selected_at r = isoformat (today now)"
    and "n_allowed_again_at r = isoformat (add_days 7 (today now))"
    by (auto simp: build_df_def df_row_of_derived)
qed

lemma new_dates_iso:
  assumes "e \<in> set (new_history_rows (build_df source now rows ledger) ledger)"
  shows "h_selected_at e = isoformat (today now)"
    and "h_allowed_again_at e = isoformat (add_days 7 (today now))"
proof -
  let ?df = "build_df source now rows ledger"
  from assms obtain j where j: "j < length (surviving_candidates ?df ledger)"
    and e: "e = with_id (max_id ledger + 1 + int j) (surviving_candidates ?df ledger ! j)"
    unfolding new_history_rows_nth by auto
  have "surviving_candidates ?df ledger ! j \<in> set (candidate_rows ?df)"
    using nth_mem [OF j] by (simp add: surviving_candidates_def)
  then show "h_selected_at e = isoformat (today now)"
    and "h_allowed_again_at e = isoformat (add_days 7 (today now))"
    unfolding e by (simp_all add: with_id_def candidate_dates_iso)
qed

lemma returned_dates_iso:
  assumes "compute_outputs now genesys history = Inr out"
    and "e \<in> set (combined_history out)"
  shows "\<exists>d1 d2. h_selected_at e = isoformat d1 \<and> h_allowed_again_at e = isoformat d2"
proof -
  obtain ledger where l: "load_history_df history = Inr ledger"
    using compute_outputs_Inr [OF assms(1)] by blast
  have o: "out = run_pipeline now (g_name genesys) (g_rows genesys) ledger"
    by (rule compute_outputs_ledger [OF assms(1) l])
  from assms(2) consider
    (old) e' where "e = map_dates isoformat e'"
    | (new) "e \<in> set (new_history_rows (build_df (g_name genesys) now (g_rows genesys) ledger) ledger)"
    unfolding o combined_history_run by auto
  then show ?thesis
  proof cases
    case old
    then show ?thesis
      by (auto simp: map_dates_def)
  next
    case new
    show ?thesis
      using new_dates_iso [OF new] by blast
  qed
qed

lemma rows_read_back:
  assumes "\<forall>e\<in>set rows. \<exists>d1 d2. h_selected_at e = isoformat d1 \<and> h_allowed_again_at e = isoformat d2"
  shows "\<exists>rs. list_all2 row_reads_back rs rows"
  using assms
proof (induction rows)
  case Nil
  then show ?case by simp
next
  case (Cons e rows)
  then obtain rs where rs: "list_all2 row_reads_back rs rows"
    by auto
  from Cons.prems obtain d1 d2
    where d: "h_selected_at e = isoformat d1" "h_allowed_again_at e = isoformat d2"
    by auto
  define r where "r = \<lparr>raw_id = Some (h_id e),
      raw_inin_outbound_id = read_cell (h_inin_outbound_id e),
      raw_borrower_id = read_cell (h_borrower_id e),
      raw_selected_at = Some d1, raw_allowed_again_at = Some d2\<rparr>"
  have "row_reads_back r e"
    by (simp add: row_reads_back_def r_def d)
  with rs have "list_all2 row_reads_back (r # rs) (e # rows)"
    by simp
  then show ?case by blast
qed

lemma returned_ledger_reads_back:
  assumes "compute_outputs now genesys history = Inr out"
  shows "\<exists>sent. reads_back sent (combined_history out)"
proof -
  obtain rs where rs: "list_all2 row_reads_back rs (combined_history out)"
    using rows_read_back returned_dates_iso [OF assms] by blast
  have "reads_back \<lparr>h_columns = HISTORY_COLUMNS, h_rows = rs\<rparr> (combined_history out)"
    by (simp add: reads_back_def rs)
  then show ?thesis ..
qed


section \<open>The example run, evaluated\<close>

lemma Let_value:
  "Let [] f = f []" "Let (x # xs) f = f (x # xs)" "Let True g = g True" "Let False g = g False"
  by (simp_all add: Let_def)

lemmas text_simps = strip_def isspace_def lower_def lower_char_def upper_chars_def
  lower_chars_def astype_str_def fillna_empty_def startswith_def last_chars_def
  normalize_digits_def isdigit_def first_name_def split_ws_def

lemmas date_simps = isoformat_def zfill_def decimal.simps digit_char_def tomorrow_def
  days_in_month_def is_leap_def date_lt_def

lemma ex_load: "load_history_df (Some ex_history) = Inr ex_ledger"
  by (simp add: load_history_df_def ex_history_def ex_ledger_def HISTORY_COLUMNS_def
      loaded_row_def text_simps)

lemma ex_blocked: "blocked_borrowers (today ex_clock) ex_ledger = {''B-200''}"
  by (simp add: blocked_borrowers_def ex_clock_def ex_ledger_def date_simps)

lemma ex_df: "build_df (g_name ex_genesys) ex_clock (g_rows ex_genesys) ex_ledger = ex_audit"
  by (simp add: build_df_def ex_blocked df_row_of_def Let_value ex_genesys_def ex_audit_def
      ex_audit_row_def assign_drop_reason_def ALLOWED_WRAPUPS_def text_simps)
     (simp add: ex_clock_def date_simps)

lemma ex_candidates:
  "candidate_rows ex_audit =
     [\<lparr>n_inin_outbound_id = ''OUT-1'', n_borrower_id = ''B-100'',
       n_selected_at = ''2026-01-10'', n_allowed_again_at = ''2026-01-17''\<rparr>]"
  by (simp add: candidate_rows_def ex_audit_def ex_audit_row_def drop_duplicates_def
      new_key_def text_simps)

lemma ex_surviving:
  "surviving_candidates ex_audit ex_ledger =
     [\<lparr>n_inin_outbound_id = ''OUT-1'', n_borrower_id = ''B-100'',
       n_selected_at = ''2026-01-10'', n_allowed_again_at = ''2026-01-17''\<rparr>]"
  by (simp add: surviving_candidates_def ex_candidates existing_keys_def new_key_def
      ex_ledger_def)

lemma ex_max_id: "max_id ex_ledger = 7"
  by (simp add: max_id_def ex_ledger_def)

lemma ex_new: "new_history_rows ex_audit ex_ledger = ex_new_rows"
  by (simp add: new_history_rows_def ex_surviving ex_max_id with_id_def ex_new_rows_def
      upto.simps)

lemma ex_combine: "combine_history ex_ledger ex_new_rows = ex_combined"
  by (simp add: combine_history_def ex_ledger_def ex_new_rows_def ex_combined_def
      drop_duplicates_def row_key_def map_dates_def cell_str_def date_simps)

lemma ex_run: "compute_outputs ex_clock ex_genesys (Some ex_history) = Inr ex_outputs"
proof -
  have cols: "filter (\<lambda>c. c \<notin> set (g_columns ex_genesys)) REQUIRED_GENESYS_COLUMNS = []"
    by (simp add: ex_genesys_def REQUIRED_GENESYS_COLUMNS_def)
  have "run_pipeline ex_clock (g_name ex_genesys) (g_rows ex_genesys) ex_ledger = ex_outputs"
    by (simp add: run_pipeline_def ex_df ex_new ex_combine Let_def ex_outputs_def)
       (simp add: run_metrics_def campaign_of_def ex_audit_def ex_audit_row_def ex_clock_def
          ex_new_rows_def)
  then show ?thesis
    by (simp add: compute_outputs_def cols ex_load)
qed

lemma ex_reload: "load_history_df (Some ex_history_reread) = Inr ex_reread"
  by (simp add: load_history_df_def ex_history_reread_def ex_reread_def HISTORY_COLUMNS_def
      loaded_row_def text_simps)

lemma ex_reread_text: "map (map_dates isoformat) ex_reread = ex_combined"
  by (simp add: ex_reread_def ex_combined_def map_dates_def date_simps)

lemma ex_ledger_distinct: "distinct (map row_key ex_ledger)"
  by (simp add: ex_ledger_def row_key_def)

lemma dup_load: "load_history_df (Some dup_history_reread) = Inr dup_reread"
  by (simp add: load_history_df_def dup_history_reread_def dup_reread_def HISTORY_COLUMNS_def
      loaded_row_def text_simps)

lemma dup_reread_text: "map (map_dates isoformat) dup_reread = dup_ledger_first"
  by (simp add: dup_reread_def dup_ledger_first_def map_dates_def date_simps)

lemma dup_first:
  "map_sum id combined_history (compute_outputs ex_clock dup_genesys (Some dup_history))
     = Inr dup_ledger_first"
  by code_simp

lemma dup_second:
  "map_sum id combined_history (compute_outputs ex_clock dup_genesys (Some dup_history_reread))
     = Inr dup_ledger_second"
  by code_simp

lemma dup_second_count:
  "map_sum id (nuevos_en_historico \<circ> out_metrics)
     (compute_outputs ex_clock dup_genesys (Some dup_history_reread)) = Inr 1"
  by code_simp

lemma bad_history_1_load: "load_history_df (Some bad_history_1) = Inl (ValueError MSG_HISTORY_DATES)"
  by (simp add: load_history_df_def bad_history_1_def HISTORY_COLUMNS_def)

lemma bad_history_2_load: "load_history_df (Some bad_history_2) = Inl (ValueError MSG_HISTORY_DATES)"
  by (simp add: load_history_df_def bad_history_2_def HISTORY_COLUMNS_def)

lemma bad_history_3_load:
  "load_history_df (Some bad_history_3) = Inl (ValueError (MSG_HISTORY_COLUMNS @ repr_list [''id'']))"
  by (simp add: load_history_df_def bad_history_3_def HISTORY_COLUMNS_def)

lemma late_load: "load_history_df (Some late_history) = Inr late_loaded"
  by (simp add: load_history_df_def late_history_def late_loaded_def HISTORY_COLUMNS_def
      loaded_row_def text_simps)

lemma late_text: "map (map_dates isoformat) late_loaded = late_ledger_first"
  by (simp add: late_loaded_def late_ledger_first_def map_dates_def date_simps)

lemma late_first:
  "map_sum id combined_history (compute_outputs ex_clock dup_genesys (Some late_history))
     = Inr late_ledger_first"
  by code_simp

lemma late_second_count:
  "map_sum id (nuevos_en_historico \<circ> out_metrics)
     (compute_outputs next_clock dup_genesys (Some late_history)) = Inr 1"
  by code_simp


text \<open>The two phones of the specification, in the example run.\<close>

lemma phone_columns_examples:
  "compute_outputs ex_clock ex_genesys (Some ex_history) = Inr ex_outputs
   \<and> 0 < length (g_rows ex_genesys)
   \<and> g_phone (g_rows ex_genesys ! 0) = Some ''+52 (55) 1234-5678''
   \<and> df_phone_full (audit_df ex_outputs ! 0) = ''525512345678''
   \<and> df_phone_10 (audit_df ex_outputs ! 0) = ''5512345678''
   \<and> df_filter_phone_pass (audit_df ex_outputs ! 0)
   \<and> 1 < length (g_rows ex_genesys)
   \<and> g_phone (g_rows ex_genesys ! 1) = Some ''12345''
   \<and> \<not> df_filter_phone_pass (audit_df ex_outputs ! 1)"
proof -
  have i0: "0 < length (g_rows ex_genesys)" and i1: "1 < length (g_rows ex_genesys)"
    by (simp_all add: ex_genesys_def)
  have g0: "g_phone (g_rows ex_genesys ! 0) = Some ''+52 (55) 1234-5678''"
    and g1: "g_phone (g_rows ex_genesys ! 1) = Some ''12345''"
    by (simp_all add: ex_genesys_def)
  note t0 = phone_columns [OF ex_run i0] and t1 = phone_columns [OF ex_run i1]
  from t0 have "df_phone_raw (audit_df ex_outputs ! 0)
      = fillna_empty (g_phone (g_rows ex_genesys ! 0))" by blast
  then have raw0: "df_phone_raw (audit_df ex_outputs ! 0) = ''+52 (55) 1234-5678''"
    unfolding g0 by (simp add: fillna_empty_def)
  from t0 have "df_phone_full (audit_df ex_outputs ! 0)
      = filter isdigit (df_phone_raw (audit_df ex_outputs ! 0))" by blast
  then have full0: "df_phone_full (audit_df ex_outputs ! 0) = ''525512345678''"
    unfolding raw0 by (simp add: isdigit_def)
  from t0 have "df_phone_10 (audit_df ex_outputs ! 0)
      = drop (length (df_phone_full (audit_df ex_outputs ! 0)) - 10)
          (df_phone_full (audit_df ex_outputs ! 0))" by blast
  then have ten0: "df_phone_10 (audit_df ex_outputs ! 0) = ''5512345678''"
    unfolding full0 by simp
  from t0 have "df_filter_phone_pass (audit_df ex_outputs ! 0)
      \<longleftrightarrow> length (df_phone_10 (audit_df ex_outputs ! 0)) = 10" by blast
  then have pass0: "df_filter_phone_pass (audit_df ex_outputs ! 0)"
    unfolding ten0 by simp
  from t1 have "df_phone_raw (audit_df ex_outputs ! 1)
      = fillna_empty (g_phone (g_rows ex_genesys ! 1))" by blast
  then have raw1: "df_phone_raw (audit_df ex_outputs ! 1) = ''12345''"
    unfolding g1 by (simp add: fillna_empty_def)
  from t1 have "df_phone_full (audit_df ex_outputs ! 1)
      = filter isdigit (df_phone_raw (audit_df ex_outputs ! 1))" by blast
  then have full1: "df_phone_full (audit_df ex_outputs ! 1) = ''12345''"
    unfolding raw1 by (simp add: isdigit_def)
  from t1 have "df_filter_phone_pass (audit_df ex_outputs ! 1)
      \<longleftrightarrow> 10 \<le> length (df_phone_full (audit_df ex_outputs ! 1))" by blast
  then have fail1: "\<not> df_filter_phone_pass (audit_df ex_outputs ! 1)"
    unfolding full1 by simp
  from ex_run i0 g0 full0 ten0 pass0 i1 g1 fail1 show ?thesis by blast
qed

text \<open>The run on the phone that ends in SUPERSCRIPT TWO.\<close>

lemma sup_columns:
  "map_sum id
     (\<lambda>out. (map df_phone_raw (audit_df out), map df_phone_full (audit_df out),
             map df_phone_10 (audit_df out), map df_filter_phone_pass (audit_df out),
             map df_is_selected_final (audit_df out), map df_drop_reason (audit_df out),
             map camp_phone (campaign_df out)))
     (compute_outputs ex_clock sup_genesys None)
   = Inr ([''555123456'' @ [CHR 0xB2]], [''555123456'' @ [CHR 0xB2]], [''555123456'' @ [CHR 0xB2]],
          [True], [True], [''selected''], [''555123456'' @ [CHR 0xB2]])"
  by code_simp

text \<open>The file of the example run reads back its ledger, and every id survives the file.\<close>

lemma ex_reads_back: "reads_back ex_history_reread ex_combined"
  by (simp add: reads_back_def row_reads_back_def ex_history_reread_def ex_combined_def
      HISTORY_COLUMNS_def read_cell_def NA_VALUES_def date_simps)

lemma ex_survives:
  "list_all (\<lambda>e. survives_csv (h_inin_outbound_id e) \<and> survives_csv (h_borrower_id e)) ex_combined"
  by (simp add: ex_combined_def survives_csv_iff NA_VALUES_def)

text \<open>
  A borrower id that does not survive the file. The run of 2026-01-10 on
  \<^const>\<open>na_genesys\<close>, without a history file, selects the borrower \<^verbatim>\<open>NA\<close> and returns a
  ledger of one row. The file of that ledger reads back with the borrower cell missing,
  which the loader turns into the text \<^verbatim>\<open>nan\<close>. The second run on the same day then finds
  no row of the borrower \<^verbatim>\<open>NA\<close> in the ledger: it selects the borrower again, adds a row
  with the id 2, and counts one new entry.
\<close>

lemma na_first:
  "map_sum id combined_history (compute_outputs ex_clock na_genesys None) = Inr na_ledger_first"
  unfolding na_ledger_first_def by code_simp

lemma na_reads_back: "reads_back na_history_reread na_ledger_first"
  by (simp add: reads_back_def row_reads_back_def na_history_reread_def na_ledger_first_def
      HISTORY_COLUMNS_def read_cell_def NA_VALUES_def date_simps)

lemma na_not_survives: "\<not> survives_csv ''NA''"
  by (simp add: survives_csv_iff NA_VALUES_def)

lemma na_second:
  "map_sum id (\<lambda>out. (combined_history out, nuevos_en_historico (out_metrics out)))
     (compute_outputs ex_clock na_genesys (Some na_history_reread))
   = Inr (na_ledger_second, 1)"
  unfolding na_ledger_second_def by code_simp


section \<open>The claims\<close>

text \<open>
  C1. In every run that returns, the cooldown set is exactly the set of borrowers of the
  loaded ledger rows whose \<^verbatim>\<open>allowed_again_at\<close> is strictly after the run's today, and
  the cooldown flag of an audit row says that its borrower is not in that set. Hence a
  borrower all of whose ledger rows have \<^verbatim>\<open>allowed_again_at\<close> equal to today or earlier
  passes, and a borrower with a ledger row whose \<^verbatim>\<open>allowed_again_at\<close> is today plus
  one day does not.
\<close>

theorem cooldown_cutoff_strict:
  assumes "compute_outputs now genesys history = Inr out"
    and "load_history_df history = Inr ledger"
    and "a \<in> set (audit_df out)"
  shows "blocked_borrowers (today now) ledger =
           {b. \<exists>e\<in>set ledger. h_borrower_id e = b \<and> date_lt (today now) (h_allowed_again_at e)}
         \<and> (df_filter_cooldown_pass a
               \<longleftrightarrow> df_borrower_id_norm a \<notin> blocked_borrowers (today now) ledger)
         \<and> ((\<forall>e\<in>set ledger. h_borrower_id e = df_borrower_id_norm a \<longrightarrow>
                 h_allowed_again_at e = today now \<or> date_lt (h_allowed_again_at e) (today now))
               \<longrightarrow> df_filter_cooldown_pass a)
         \<and> ((\<exists>e\<in>set ledger. h_borrower_id e = df_borrower_id_norm a
                 \<and> h_allowed_again_at e = add_days 1 (today now))
               \<longrightarrow> \<not> df_filter_cooldown_pass a)"
proof -
  let ?B = "blocked_borrowers (today now) ledger"
  have set_eq: "?B = {b. \<exists>e\<in>set ledger. h_borrower_id e = b
                          \<and> date_lt (today now) (h_allowed_again_at e)}"
    by (auto simp: blocked_borrowers_def)
  from assms(1,3) obtain ledger' g
    where "load_history_df history = Inr ledger'"
      and "a = df_row_of (g_name genesys) now (blocked_borrowers (today now) ledger') g"
    by (rule audit_row_cases)
  with assms(2) have a: "a = df_row_of (g_name genesys) now ?B g"
    by simp
  have pass: "df_filter_cooldown_pass a \<longleftrightarrow> df_borrower_id_norm a \<notin> ?B"
    unfolding a by (simp add: df_row_of_filters df_row_of_cells)
  have early: "df_filter_cooldown_pass a"
    if "\<forall>e\<in>set ledger. h_borrower_id e = df_borrower_id_norm a \<longrightarrow>
          h_allowed_again_at e = today now \<or> date_lt (h_allowed_again_at e) (today now)"
    using that unfolding pass set_eq
    by (auto dest: date_lt_asym simp: date_lt_irrefl)
  have late: "\<not> df_filter_cooldown_pass a"
    if "\<exists>e\<in>set ledger. h_borrower_id e = df_borrower_id_norm a
          \<and> h_allowed_again_at e = add_days 1 (today now)"
  proof -
    from that obtain e where "e \<in> set ledger" "h_borrower_id e = df_borrower_id_norm a"
      "h_allowed_again_at e = tomorrow (today now)"
      by auto
    then have "df_borrower_id_norm a \<in> ?B"
      unfolding set_eq using date_lt_tomorrow [of "today now"] by auto
    then show ?thesis by (simp add: pass)
  qed
  from set_eq pass early late show ?thesis by blast
qed

theorem cooldown_cutoff_strict_witness:
  "compute_outputs ex_clock ex_genesys (Some ex_history) = Inr ex_outputs
   \<and> load_history_df (Some ex_history) = Inr ex_ledger
   \<and> ex_audit ! 0 \<in> set (audit_df ex_outputs)
   \<and> filter (\<lambda>e. h_borrower_id e = df_borrower_id_norm (ex_audit ! 0)) ex_ledger = [ex_ledger ! 0]
   \<and> h_allowed_again_at (ex_ledger ! 0) = today ex_clock
   \<and> df_filter_cooldown_pass (ex_audit ! 0)
   \<and> ex_audit ! 1 \<in> set (audit_df ex_outputs)
   \<and> (\<exists>e\<in>set ex_ledger. h_borrower_id e = df_borrower_id_norm (ex_audit ! 1)
          \<and> h_allowed_again_at e = add_days 1 (today ex_clock))
   \<and> \<not> df_filter_cooldown_pass (ex_audit ! 1)"
proof -
  have m0: "ex_audit ! 0 \<in> set (audit_df ex_outputs)"
    and m1: "ex_audit ! 1 \<in> set (audit_df ex_outputs)"
    by (simp_all add: ex_outputs_def ex_audit_def)
  have only: "filter (\<lambda>e. h_borrower_id e = df_borrower_id_norm (ex_audit ! 0)) ex_ledger
      = [ex_ledger ! 0]"
    and on_today: "h_allowed_again_at (ex_ledger ! 0) = today ex_clock"
    by (simp_all add: ex_ledger_def ex_audit_def ex_audit_row_def ex_clock_def)
  have h0: "\<forall>e\<in>set ex_ledger. h_borrower_id e = df_borrower_id_norm (ex_audit ! 0) \<longrightarrow>
      h_allowed_again_at e = today ex_clock \<or> date_lt (h_allowed_again_at e) (today ex_clock)"
  proof (intro ballI impI)
    fix e
    assume "e \<in> set ex_ledger" and "h_borrower_id e = df_borrower_id_norm (ex_audit ! 0)"
    then have "e \<in> set (filter (\<lambda>e. h_borrower_id e = df_borrower_id_norm (ex_audit ! 0)) ex_ledger)"
      by simp
    then have "e = ex_ledger ! 0" unfolding only by simp
    then show "h_allowed_again_at e = today ex_clock
        \<or> date_lt (h_allowed_again_at e) (today ex_clock)"
      using on_today by simp
  qed
  have h1: "\<exists>e\<in>set ex_ledger. h_borrower_id e = df_borrower_id_norm (ex_audit ! 1)
      \<and> h_allowed_again_at e = add_days 1 (today ex_clock)"
    by (simp add: ex_ledger_def ex_audit_def ex_audit_row_def ex_clock_def tomorrow_def
        days_in_month_def)
  from cooldown_cutoff_strict [OF ex_run ex_load m0] h0
  have p0: "df_filter_cooldown_pass (ex_audit ! 0)" by blast
  from cooldown_cutoff_strict [OF ex_run ex_load m1] h1
  have p1: "\<not> df_filter_cooldown_pass (ex_audit ! 1)" by blast
  from ex_run ex_load m0 only on_today p0 m1 h1 p1 show ?thesis by blast
qed

text \<open>
  C2, as amended. Take a run that returns on a loaded ledger whose key triples are
  pairwise distinct, and let no outbound id and no borrower id of the returned ledger be
  a text that the reader of the file takes for a missing cell (the text \<^verbatim>\<open>nan\<close> apart).
  Take any file that reads back the returned ledger, and a second run on the same export
  and the same run date with that file as its history. Then the file loads; the second
  run returns; it returns the same ledger; no candidate survives, so it creates no row
  and assigns no id; and its counter of new entries is zero.
\<close>

theorem reconcile_idempotent:
  assumes "compute_outputs now genesys history = Inr out"
    and "load_history_df history = Inr ledger"
    and "distinct (map row_key ledger)"
    and "reads_back sent (combined_history out)"
    and "\<forall>e\<in>set (combined_history out).
           survives_csv (h_inin_outbound_id e) \<and> survives_csv (h_borrower_id e)"
    and "today now' = today now"
  shows "\<exists>ledger' out'. load_history_df (Some sent) = Inr ledger'
           \<and> compute_outputs now' genesys (Some sent) = Inr out'
           \<and> combined_history out' = combined_history out
           \<and> new_history_rows (audit_df out') ledger' = []
           \<and> nuevos_en_historico (out_metrics out') = 0"
proof -
  have stripped: "\<forall>e\<in>set (combined_history out).
      strip (h_inin_outbound_id e) = h_inin_outbound_id e
      \<and> strip (h_borrower_id e) = h_borrower_id e"
    using returned_ids_stripped [OF assms(1,2)] by blast
  define ledger' where "ledger' = map loaded_row (h_rows sent)"
  have load': "load_history_df (Some sent) = Inr ledger'"
    unfolding ledger'_def by (rule reads_back_load(1) [OF assms(4,5) stripped])
  have reread: "map (map_dates isoformat) ledger' = combined_history out"
    unfolding ledger'_def by (rule reads_back_load(2) [OF assms(4,5) stripped])
  from second_run_outputs [OF assms(1,2,3) load' reread assms(6)] load'
  show ?thesis by blast
qed

theorem reconcile_idempotent_witness:
  "compute_outputs ex_clock ex_genesys (Some ex_history) = Inr ex_outputs
   \<and> load_history_df (Some ex_history) = Inr ex_ledger
   \<and> distinct (map row_key ex_ledger)
   \<and> reads_back ex_history_reread (combined_history ex_outputs)
   \<and> list_all (\<lambda>e. survives_csv (h_inin_outbound_id e) \<and> survives_csv (h_borrower_id e))
        (combined_history ex_outputs)
   \<and> (\<exists>ledger' out'. load_history_df (Some ex_history_reread) = Inr ledger'
         \<and> compute_outputs ex_clock ex_genesys (Some ex_history_reread) = Inr out'
         \<and> combined_history out' = combined_history ex_outputs
         \<and> new_history_rows (audit_df out') ledger' = []
         \<and> nuevos_en_historico (out_metrics out') = 0)"
proof -
  have c: "combined_history ex_outputs = ex_combined"
    by (simp add: ex_outputs_def)
  have reread: "reads_back ex_history_reread (combined_history ex_outputs)"
    unfolding c by (rule ex_reads_back)
  have survive: "list_all (\<lambda>e. survives_csv (h_inin_outbound_id e) \<and> survives_csv (h_borrower_id e))
        (combined_history ex_outputs)"
    unfolding c by (rule ex_survives)
  then have survive': "\<forall>e\<in>set (combined_history ex_outputs).
      survives_csv (h_inin_outbound_id e) \<and> survives_csv (h_borrower_id e)"
    by (simp only: list_all_iff)
  from reconcile_idempotent [OF ex_run ex_load ex_ledger_distinct reread survive' refl]
    ex_run ex_load ex_ledger_distinct reread survive
  show ?thesis by blast
qed

text \<open>
  C2 as stated fails on a ledger in which two rows share a key triple. On 2026-01-10 the
  first run on \<^const>\<open>dup_history\<close> keeps the first of its two rows only, and with it
  loses the one row that had the borrower in cooldown. The second run, on the ledger
  that the first returned, then selects the borrower and adds a row. It also fails, on a
  ledger with distinct key triples, when the second run is made on a later day: the run
  of 2026-01-10 on \<^const>\<open>late_history\<close> returns the ledger as it was, and the run of
  2026-01-11 on that ledger adds a row, the cooldown of the borrower being over.
\<close>

theorem idempotence_counterexample:
  "map_sum id combined_history (compute_outputs ex_clock dup_genesys (Some dup_history))
     = Inr dup_ledger_first
   \<and> load_history_df (Some dup_history_reread) = Inr dup_reread
   \<and> map (map_dates isoformat) dup_reread = dup_ledger_first
   \<and> map_sum id combined_history (compute_outputs ex_clock dup_genesys (Some dup_history_reread))
     = Inr dup_ledger_second
   \<and> map_sum id (nuevos_en_historico \<circ> out_metrics)
        (compute_outputs ex_clock dup_genesys (Some dup_history_reread)) = Inr 1
   \<and> dup_ledger_second \<noteq> dup_ledger_first
   \<and> map_sum id combined_history (compute_outputs ex_clock dup_genesys (Some late_history))
     = Inr late_ledger_first
   \<and> load_history_df (Some late_history) = Inr late_loaded
   \<and> distinct (map row_key late_loaded)
   \<and> map (map_dates isoformat) late_loaded = late_ledger_first
   \<and> map_sum id (nuevos_en_historico \<circ> out_metrics)
        (compute_outputs next_clock dup_genesys (Some late_history)) = Inr 1"
proof -
  have "dup_ledger_second \<noteq> dup_ledger_first"
    by (simp add: dup_ledger_second_def dup_ledger_first_def)
  moreover have "distinct (map row_key late_loaded)"
    by (simp add: late_loaded_def)
  ultimately show ?thesis
    using dup_first dup_load dup_reread_text dup_second dup_second_count
      late_first late_load late_text late_second_count
    by blast
qed

text \<open>
  C3. In every run that returns, the drop reason of each audit row is the reason of the
  first failing predicate in the order cooldown, result, wrapup, phone, and
  \<^verbatim>\<open>selected\<close> when none fails. In particular a row that fails the cooldown and the
  phone predicates reports \<^verbatim>\<open>cooldown\<close>, and a row that fails the phone predicate
  only reports \<^verbatim>\<open>invalid_phone\<close>.
\<close>

theorem drop_reason_priority:
  assumes "compute_outputs now genesys history = Inr out" and "a \<in> set (audit_df out)"
  shows "df_drop_reason a =
           first_failing [(df_filter_cooldown_pass a, ''cooldown''),
                          (df_filter_result_pass a, ''result''),
                          (df_filter_wrapup_pass a, ''wrapup''),
                          (df_filter_phone_pass a, ''invalid_phone'')]
         \<and> (\<not> df_filter_cooldown_pass a \<and> \<not> df_filter_phone_pass a
                \<longrightarrow> df_drop_reason a = ''cooldown'')
         \<and> (df_filter_cooldown_pass a \<and> df_filter_result_pass a \<and> df_filter_wrapup_pass a
                \<and> \<not> df_filter_phone_pass a \<longrightarrow> df_drop_reason a = ''invalid_phone'')"
proof -
  from assms obtain ledger g
    where a: "a = df_row_of (g_name genesys) now (blocked_borrowers (today now) ledger) g"
    by (rule audit_row_cases)
  have "df_drop_reason a =
          assign_drop_reason (df_filter_cooldown_pass a) (df_filter_result_pass a)
            (df_filter_wrapup_pass a) (df_filter_phone_pass a)"
    unfolding a by (rule df_row_of_derived)
  then show ?thesis by (simp add: assign_drop_reason_first_failing)
qed

theorem drop_reason_priority_witness:
  "compute_outputs ex_clock ex_genesys (Some ex_history) = Inr ex_outputs
   \<and> ex_audit ! 1 \<in> set (audit_df ex_outputs)
   \<and> \<not> df_filter_cooldown_pass (ex_audit ! 1) \<and> \<not> df_filter_phone_pass (ex_audit ! 1)
   \<and> df_drop_reason (ex_audit ! 1) = ''cooldown''
   \<and> ex_audit ! 2 \<in> set (audit_df ex_outputs)
   \<and> df_filter_cooldown_pass (ex_audit ! 2) \<and> df_filter_result_pass (ex_audit ! 2)
   \<and> df_filter_wrapup_pass (ex_audit ! 2) \<and> \<not> df_filter_phone_pass (ex_audit ! 2)
   \<and> df_drop_reason (ex_audit ! 2) = ''invalid_phone''"
proof -
  have m1: "ex_audit ! 1 \<in> set (audit_df ex_outputs)"
    and m2: "ex_audit ! 2 \<in> set (audit_df ex_outputs)"
    by (simp_all add: ex_outputs_def ex_audit_def)
  have f1: "\<not> df_filter_cooldown_pass (ex_audit ! 1) \<and> \<not> df_filter_phone_pass (ex_audit ! 1)"
    by (simp add: ex_audit_def ex_audit_row_def)
  have f2: "df_filter_cooldown_pass (ex_audit ! 2) \<and> df_filter_result_pass (ex_audit ! 2)
      \<and> df_filter_wrapup_pass (ex_audit ! 2) \<and> \<not> df_filter_phone_pass (ex_audit ! 2)"
    by (simp add: ex_audit_def ex_audit_row_def)
  from drop_reason_priority [OF ex_run m1] f1
  have r1: "df_drop_reason (ex_audit ! 1) = ''cooldown''" by blast
  from drop_reason_priority [OF ex_run m2] f2
  have r2: "df_drop_reason (ex_audit ! 2) = ''invalid_phone''" by blast
  from ex_run m1 f1 r1 m2 f2 r2 show ?thesis by blast
qed

text \<open>
  C4. In every run that returns, the selected flag of each audit row is the conjunction
  of its four pass flags, and its drop reason is \<^verbatim>\<open>selected\<close> exactly when the flag
  is set.
\<close>

theorem selected_is_conjunction:
  assumes "compute_outputs now genesys history = Inr out" and "a \<in> set (audit_df out)"
  shows "df_is_selected_final a =
           (df_filter_cooldown_pass a \<and> df_filter_result_pass a
            \<and> df_filter_wrapup_pass a \<and> df_filter_phone_pass a)
         \<and> (df_drop_reason a = ''selected'' \<longleftrightarrow> df_is_selected_final a)"
proof -
  from assms obtain ledger g
    where a: "a = df_row_of (g_name genesys) now (blocked_borrowers (today now) ledger) g"
    by (rule audit_row_cases)
  have sel: "df_is_selected_final a =
          (df_filter_cooldown_pass a \<and> df_filter_result_pass a
           \<and> df_filter_wrapup_pass a \<and> df_filter_phone_pass a)"
    unfolding a by (rule df_row_of_derived)
  have "df_drop_reason a =
          assign_drop_reason (df_filter_cooldown_pass a) (df_filter_result_pass a)
            (df_filter_wrapup_pass a) (df_filter_phone_pass a)"
    unfolding a by (rule df_row_of_derived)
  then have "df_drop_reason a = ''selected'' \<longleftrightarrow> df_is_selected_final a"
    by (simp only: assign_drop_reason_selected sel)
  with sel show ?thesis by simp
qed

theorem selected_is_conjunction_witness:
  "compute_outputs ex_clock ex_genesys (Some ex_history) = Inr ex_outputs
   \<and> ex_audit ! 0 \<in> set (audit_df ex_outputs)
   \<and> df_filter_cooldown_pass (ex_audit ! 0) \<and> df_filter_result_pass (ex_audit ! 0)
   \<and> df_filter_wrapup_pass (ex_audit ! 0) \<and> df_filter_phone_pass (ex_audit ! 0)
   \<and> df_is_selected_final (ex_audit ! 0) \<and> df_drop_reason (ex_audit ! 0) = ''selected''
   \<and> ex_audit ! 2 \<in> set (audit_df ex_outputs)
   \<and> \<not> df_filter_phone_pass (ex_audit ! 2)
   \<and> \<not> df_is_selected_final (ex_audit ! 2) \<and> df_drop_reason (ex_audit ! 2) \<noteq> ''selected''"
proof -
  have m0: "ex_audit ! 0 \<in> set (audit_df ex_outputs)"
    and m2: "ex_audit ! 2 \<in> set (audit_df ex_outputs)"
    by (simp_all add: ex_outputs_def ex_audit_def)
  have f0: "df_filter_cooldown_pass (ex_audit ! 0) \<and> df_filter_result_pass (ex_audit ! 0)
      \<and> df_filter_wrapup_pass (ex_audit ! 0) \<and> df_filter_phone_pass (ex_audit ! 0)"
    by (simp add: ex_audit_def ex_audit_row_def)
  have f2: "\<not> df_filter_phone_pass (ex_audit ! 2)"
    by (simp add: ex_audit_def ex_audit_row_def)
  from selected_is_conjunction [OF ex_run m0] f0
  have s0: "df_is_selected_final (ex_audit ! 0) \<and> df_drop_reason (ex_audit ! 0) = ''selected''"
    by blast
  from selected_is_conjunction [OF ex_run m2] f2
  have s2: "\<not> df_is_selected_final (ex_audit ! 2) \<and> df_drop_reason (ex_audit ! 2) \<noteq> ''selected''"
    by blast
  from ex_run m0 f0 s0 m2 f2 s2 show ?thesis by blast
qed

text \<open>
  C5. In every run that returns, with \<open>m\<close> the largest id of the loaded ledger (0 for
  the empty ledger) and \<open>k\<close> the number of candidates that survive the intra-run dedup
  and the existing-key filter: the counter of new entries is \<open>k\<close>; the \<open>j\<close>-th
  surviving candidate becomes the new row with id \<open>m + 1 + j\<close>, so the ids of the new
  rows are \<open>m + 1, ..., m + k\<close> in this order, each once; the returned ledger is the
  text form of the kept rows of the loaded ledger followed by the new rows; every kept
  row is a row of the loaded ledger, and no id of the loaded ledger is the id of a new
  row.
\<close>

theorem surrogate_ids:
  assumes "compute_outputs now genesys history = Inr out"
    and "load_history_df history = Inr ledger"
  shows "max_id ledger = (if ledger = [] then 0 else Max (h_id ` set ledger))
         \<and> nuevos_en_historico (out_metrics out)
             = length (surviving_candidates (audit_df out) ledger)
         \<and> new_history_rows (audit_df out) ledger
             = map (\<lambda>j. with_id (max_id ledger + 1 + int j)
                          (surviving_candidates (audit_df out) ledger ! j))
                 [0..<length (surviving_candidates (audit_df out) ledger)]
         \<and> map h_id (new_history_rows (audit_df out) ledger)
             = [max_id ledger + 1 .. max_id ledger + int (nuevos_en_historico (out_metrics out))]
         \<and> distinct (map h_id (new_history_rows (audit_df out) ledger))
         \<and> combined_history out
             = map (map_dates isoformat) (drop_duplicates row_key ledger)
                 @ new_history_rows (audit_df out) ledger
         \<and> set (drop_duplicates row_key ledger) \<subseteq> set ledger
         \<and> (\<forall>e\<in>set ledger. h_id e \<le> max_id ledger
               \<and> h_id e \<notin> set (map h_id (new_history_rows (audit_df out) ledger)))"
proof -
  have o: "out = run_pipeline now (g_name genesys) (g_rows genesys) ledger"
    by (rule compute_outputs_ledger [OF assms])
  define df where "df = build_df (g_name genesys) now (g_rows genesys) ledger"
  have audit: "audit_df out = df"
    by (simp add: o df_def audit_df_run)
  have count: "nuevos_en_historico (out_metrics out) = length (surviving_candidates df ledger)"
    by (simp add: o df_def run_pipeline_def Let_def run_metrics_def new_history_rows_length)
  have ids: "map h_id (new_history_rows df ledger)
      = [max_id ledger + 1 .. max_id ledger + int (nuevos_en_historico (out_metrics out))]"
    by (simp add: new_history_rows_ids count)
  have once: "distinct (map h_id (new_history_rows df ledger))"
    unfolding ids by simp
  have comb: "combined_history out
      = map (map_dates isoformat) (drop_duplicates row_key ledger) @ new_history_rows df ledger"
    by (simp add: o df_def combined_history_run)
  have old: "h_id e \<le> max_id ledger \<and> h_id e \<notin> set (map h_id (new_history_rows df ledger))"
    if "e \<in> set ledger" for e
    using max_id_ge [OF that] unfolding ids by simp
  show ?thesis
    unfolding audit
    using max_id_Max [of ledger] count new_history_rows_nth [of df ledger] ids once comb
      drop_duplicates_subset [of row_key ledger] old
    by blast
qed

theorem surrogate_ids_witness:
  "compute_outputs ex_clock ex_genesys (Some ex_history) = Inr ex_outputs
   \<and> load_history_df (Some ex_history) = Inr ex_ledger
   \<and> max_id ex_ledger = 7
   \<and> nuevos_en_historico (out_metrics ex_outputs) = 1
   \<and> map h_id (new_history_rows (audit_df ex_outputs) ex_ledger) = [8]
   \<and> combined_history ex_outputs
       = map (map_dates isoformat) (drop_duplicates row_key ex_ledger)
           @ new_history_rows (audit_df ex_outputs) ex_ledger"
proof -
  note t = surrogate_ids [OF ex_run ex_load]
  have k: "nuevos_en_historico (out_metrics ex_outputs) = 1"
    by (simp add: ex_outputs_def)
  from t have "map h_id (new_history_rows (audit_df ex_outputs) ex_ledger)
      = [max_id ex_ledger + 1 .. max_id ex_ledger + int (nuevos_en_historico (out_metrics ex_outputs))]"
    by blast
  then have ids: "map h_id (new_history_rows (audit_df ex_outputs) ex_ledger) = [8]"
    by (simp add: k ex_max_id upto.simps)
  from t have comb: "combined_history ex_outputs
      = map (map_dates isoformat) (drop_duplicates row_key ex_ledger)
          @ new_history_rows (audit_df ex_outputs) ex_ledger"
    by blast
  from ex_run ex_load ex_max_id k ids comb show ?thesis by blast
qed

text \<open>
  C6. In every run that returns on a loaded ledger whose key triples (outbound id,
  borrower id, selection date) are pairwise distinct, the returned ledger is the loaded
  ledger, row by row in its order and with its dates as ISO text, followed by the new
  rows, and its key triples are pairwise distinct. The final guard keeps, of the rows
  with one key, the first (\<open>drop_duplicates_first\<close>); here it has nothing to remove.
\<close>

theorem ledger_append_only:
  assumes "compute_outputs now genesys history = Inr out"
    and "load_history_df history = Inr ledger"
    and "distinct (map row_key ledger)"
  shows "combined_history out
           = map (map_dates isoformat) ledger @ new_history_rows (audit_df out) ledger
         \<and> distinct (map row_key (combined_history out))"
proof -
  have o: "out = run_pipeline now (g_name genesys) (g_rows genesys) ledger"
    by (rule compute_outputs_ledger [OF assms(1,2)])
  have comb: "combined_history out
      = map (map_dates isoformat) ledger @ new_history_rows (audit_df out) ledger"
    by (simp add: o combined_history_run audit_df_run drop_duplicates_same [OF assms(3)])
  moreover have "distinct (map row_key (combined_history out))"
    unfolding comb by (rule ledger_keys_distinct [OF assms(3)])
  ultimately show ?thesis by simp
qed

theorem ledger_append_only_witness:
  "compute_outputs ex_clock ex_genesys (Some ex_history) = Inr ex_outputs
   \<and> load_history_df (Some ex_history) = Inr ex_ledger
   \<and> distinct (map row_key ex_ledger)
   \<and> combined_history ex_outputs
       = map (map_dates isoformat) ex_ledger @ new_history_rows (audit_df ex_outputs) ex_ledger
   \<and> distinct (map row_key (combined_history ex_outputs))"
  using ledger_append_only [OF ex_run ex_load ex_ledger_distinct] ex_run ex_load ex_ledger_distinct
  by blast

text \<open>
  C7. The code departs from the claim on a phone that holds a character which
  \<^verbatim>\<open>str.isdigit\<close> accepts and which is no decimal digit. The run of 2026-01-10 on
  \<^const>\<open>sup_genesys\<close>, without a history file, returns. The phone of its one record has
  nine decimal digits, followed by the character SUPERSCRIPT TWO; the normalised phone
  keeps all ten characters, the ten-digit form is the same text, the phone predicate
  holds, the record is selected with the reason \<^verbatim>\<open>selected\<close>, and the campaign carries
  the ten characters as its phone.
\<close>

theorem phone_superscript_passes:
  "filter (\<lambda>c. c \<in> set ''0123456789'') (''555123456'' @ [CHR 0xB2]) = ''555123456''
   \<and> (\<exists>out. compute_outputs ex_clock sup_genesys None = Inr out
         \<and> map df_phone_raw (audit_df out) = [''555123456'' @ [CHR 0xB2]]
         \<and> map df_phone_full (audit_df out) = [''555123456'' @ [CHR 0xB2]]
         \<and> map df_phone_10 (audit_df out) = [''555123456'' @ [CHR 0xB2]]
         \<and> map df_filter_phone_pass (audit_df out) = [True]
         \<and> map df_is_selected_final (audit_df out) = [True]
         \<and> map df_drop_reason (audit_df out) = [''selected'']
         \<and> map camp_phone (campaign_df out) = [''555123456'' @ [CHR 0xB2]])"
proof (cases "compute_outputs ex_clock sup_genesys None")
  case (Inl e)
  with sup_columns show ?thesis by simp
next
  case (Inr out)
  with sup_columns show ?thesis by simp
qed

text \<open>
  C8, as amended. Without a history file the loader returns the empty ledger and no
  error. With a history file that has the five required columns and a row whose
  \<^verbatim>\<open>selected_at\<close> or \<^verbatim>\<open>allowed_again_at\<close> does not parse, the loader fails with the
  \<^verbatim>\<open>ValueError\<close> whose message is the fixed text on invalid dates, which does not
  carry the number of invalid rows, and the run returns an error and no outputs.
  Whenever the loader returns a ledger, it has one row per row of the file.
\<close>

theorem loader_contract:
  "load_history_df None = Inr []
   \<and> (set HISTORY_COLUMNS \<subseteq> set (h_columns f)
        \<and> (\<exists>r\<in>set (h_rows f). raw_selected_at r = None \<or> raw_allowed_again_at r = None)
      \<longrightarrow> load_history_df (Some f) = Inl (ValueError MSG_HISTORY_DATES)
          \<and> (\<exists>e. compute_outputs now genesys (Some f) = Inl e))
   \<and> (\<forall>ledger. load_history_df (Some f) = Inr ledger \<longrightarrow> length ledger = length (h_rows f))"
proof (intro conjI impI allI)
  show "load_history_df None = Inr []"
    by (simp add: load_history_df_def)
next
  assume bad: "set HISTORY_COLUMNS \<subseteq> set (h_columns f)
      \<and> (\<exists>r\<in>set (h_rows f). raw_selected_at r = None \<or> raw_allowed_again_at r = None)"
  then have cols: "filter (\<lambda>c. c \<notin> set (h_columns f)) HISTORY_COLUMNS = []"
    by (auto simp: filter_empty_conv)
  from bad have "filter (\<lambda>r. raw_selected_at r = None) (h_rows f) \<noteq> []
      \<or> filter (\<lambda>r. raw_allowed_again_at r = None) (h_rows f) \<noteq> []"
    by (auto simp: filter_empty_conv)
  then show load: "load_history_df (Some f) = Inl (ValueError MSG_HISTORY_DATES)"
    by (auto simp: load_history_df_def Let_def cols)
  show "\<exists>e. compute_outputs now genesys (Some f) = Inl e"
    by (simp add: compute_outputs_def Let_def load)
next
  fix ledger
  assume "load_history_df (Some f) = Inr ledger"
  then show "length ledger = length (h_rows f)"
    by (auto simp: load_history_df_def Let_def split: if_splits)
qed

theorem loader_contract_witness:
  "load_history_df None = Inr []
   \<and> set HISTORY_COLUMNS \<subseteq> set (h_columns bad_history_1)
   \<and> (\<exists>r\<in>set (h_rows bad_history_1). raw_selected_at r = None \<or> raw_allowed_again_at r = None)
   \<and> load_history_df (Some bad_history_1) = Inl (ValueError MSG_HISTORY_DATES)
   \<and> (\<exists>e. compute_outputs ex_clock ex_genesys (Some bad_history_1) = Inl e)
   \<and> load_history_df (Some ex_history) = Inr ex_ledger
   \<and> length ex_ledger = length (h_rows ex_history)"
proof -
  have cols: "set HISTORY_COLUMNS \<subseteq> set (h_columns bad_history_1)"
    by (simp add: HISTORY_COLUMNS_def bad_history_1_def)
  have bad: "\<exists>r\<in>set (h_rows bad_history_1). raw_selected_at r = None \<or> raw_allowed_again_at r = None"
    by (simp add: bad_history_1_def)
  note t = loader_contract [of bad_history_1 ex_clock ex_genesys]
  from t have none: "load_history_df None = Inr []" by blast
  from t cols bad have err: "load_history_df (Some bad_history_1) = Inl (ValueError MSG_HISTORY_DATES)"
    by blast
  from t cols bad have run: "\<exists>e. compute_outputs ex_clock ex_genesys (Some bad_history_1) = Inl e"
    by blast
  from loader_contract [of ex_history] ex_load
  have len: "length ex_ledger = length (h_rows ex_history)" by blast
  from none cols bad err run ex_load len show ?thesis by blast
qed

text \<open>
  C8 as stated fails where it has the error report the number of invalid rows: a file
  with one invalid row and a file with two make the loader fail with the same error,
  whose message is the fixed text. And a file that lacks a required column fails at the
  column check, with the message on missing columns, whatever its dates are.
\<close>

theorem loader_count_counterexample:
  "length (filter (\<lambda>r. raw_selected_at r = None \<or> raw_allowed_again_at r = None)
             (h_rows bad_history_1)) = 1
   \<and> length (filter (\<lambda>r. raw_selected_at r = None \<or> raw_allowed_again_at r = None)
               (h_rows bad_history_2)) = 2
   \<and> load_history_df (Some bad_history_1) = load_history_df (Some bad_history_2)
   \<and> load_history_df (Some bad_history_1)
       = Inl (ValueError
           ''El historico contiene fechas invalidas en 'selected_at' o 'allowed_again_at'.'')
   \<and> length (filter (\<lambda>r. raw_selected_at r = None \<or> raw_allowed_again_at r = None)
               (h_rows bad_history_3)) = 1
   \<and> load_history_df (Some bad_history_3)
       = Inl (ValueError (MSG_HISTORY_COLUMNS @ repr_list [''id'']))
   \<and> load_history_df (Some bad_history_3) \<noteq> Inl (ValueError MSG_HISTORY_DATES)"
proof -
  have "length (filter (\<lambda>r. raw_selected_at r = None \<or> raw_allowed_again_at r = None)
      (h_rows bad_history_1)) = 1"
    by (simp add: bad_history_1_def)
  moreover have "length (filter (\<lambda>r. raw_selected_at r = None \<or> raw_allowed_again_at r = None)
      (h_rows bad_history_2)) = 2"
    by (simp add: bad_history_2_def)
  moreover have "load_history_df (Some bad_history_1)
      = Inl (ValueError
          ''El historico contiene fechas invalidas en 'selected_at' o 'allowed_again_at'.'')"
    by (simp add: bad_history_1_load MSG_HISTORY_DATES_def)
  moreover have "length (filter (\<lambda>r. raw_selected_at r = None \<or> raw_allowed_again_at r = None)
      (h_rows bad_history_3)) = 1"
    by (simp add: bad_history_3_def)
  moreover have "load_history_df (Some bad_history_3) \<noteq> Inl (ValueError MSG_HISTORY_DATES)"
    by (simp add: bad_history_3_load MSG_HISTORY_COLUMNS_def MSG_HISTORY_DATES_def)
  ultimately show ?thesis
    by (simp add: bad_history_1_load bad_history_2_load bad_history_3_load)
qed

text \<open>
  C9. In every run that returns, the audit table has one row per input record, in input
  order. The row at each position carries the identifiers and the name of that record,
  its phone raw, normalised and cut to ten characters, the first name, the four pass
  flags, each computed from the record and the cooldown set alone, the selected flag,
  the drop reason, and the two dates, which are the empty text exactly when the record
  is not selected.
\<close>

theorem audit_complete:
  assumes "compute_outputs now genesys history = Inr out"
    and "load_history_df history = Inr ledger"
  shows "length (audit_df out) = length (g_rows genesys)
         \<and> (\<forall>i<length (g_rows genesys).
              df_source_filename (audit_df out ! i) = g_name genesys
            \<and> df_campaign_run_at (audit_df out ! i) = run_ts now
            \<and> df_borrower_id_norm (audit_df out ! i)
                = strip (astype_str (g_borrower_id (g_rows genesys ! i)))
            \<and> df_inin_outbound_id (audit_df out ! i)
                = strip (astype_str (g_inin_outbound_id (g_rows genesys ! i)))
            \<and> df_full_name (audit_df out ! i) = g_full_name (g_rows genesys ! i)
            \<and> df_phone_raw (audit_df out ! i) = fillna_empty (g_phone (g_rows genesys ! i))
            \<and> df_phone_full (audit_df out ! i) = filter isdigit (df_phone_raw (audit_df out ! i))
            \<and> df_phone_10 (audit_df out ! i) = last_chars 10 (df_phone_full (audit_df out ! i))
            \<and> df_first_name (audit_df out ! i) = first_name (g_full_name (g_rows genesys ! i))
            \<and> df_filter_cooldown_pass (audit_df out ! i)
                = (df_borrower_id_norm (audit_df out ! i) \<notin> blocked_borrowers (today now) ledger)
            \<and> df_filter_result_pass (audit_df out ! i)
                = (fillna_empty (g_last_result (g_rows genesys ! i)) = []
                   \<or> startswith (fillna_empty (g_last_result (g_rows genesys ! i))) ''ININ-OUTBOUND'')
            \<and> df_filter_wrapup_pass (audit_df out ! i)
                = (lower (strip (fillna_empty (g_last_wrapup (g_rows genesys ! i)))) = []
                   \<or> lower (strip (fillna_empty (g_last_wrapup (g_rows genesys ! i))))
                        \<in> ALLOWED_WRAPUPS)
            \<and> df_filter_phone_pass (audit_df out ! i) = (length (df_phone_10 (audit_df out ! i)) = 10)
            \<and> df_is_selected_final (audit_df out ! i)
                = (df_filter_cooldown_pass (audit_df out ! i) \<and> df_filter_result_pass (audit_df out ! i)
                   \<and> df_filter_wrapup_pass (audit_df out ! i) \<and> df_filter_phone_pass (audit_df out ! i))
            \<and> df_drop_reason (audit_df out ! i)
                = first_failing [(df_filter_cooldown_pass (audit_df out ! i), ''cooldown''),
                                 (df_filter_result_pass (audit_df out ! i), ''result''),
                                 (df_filter_wrapup_pass (audit_df out ! i), ''wrapup''),
                                 (df_filter_phone_pass (audit_df out ! i), ''invalid_phone'')]
            \<and> df_selected_at (audit_df out ! i)
                = (if df_is_selected_final (audit_df out ! i) then isoformat (today now) else [])
            \<and> df_allowed_again_at (audit_df out ! i)
                = (if df_is_selected_final (audit_df out ! i)
                   then isoformat (add_days 7 (today now)) else [])
            \<and> (df_selected_at (audit_df out ! i) = [] \<longleftrightarrow> \<not> df_is_selected_final (audit_df out ! i))
            \<and> (df_allowed_again_at (audit_df out ! i) = []
                 \<longleftrightarrow> \<not> df_is_selected_final (audit_df out ! i)))"
proof (intro conjI allI impI)
  show "length (audit_df out) = length (g_rows genesys)"
    by (rule audit_row_nth(1) [OF assms])
next
  fix i
  assume i: "i < length (g_rows genesys)"
  define a where "a = audit_df out ! i"
  define g where "g = g_rows genesys ! i"
  have a: "a = df_row_of (g_name genesys) now (blocked_borrowers (today now) ledger) g"
    unfolding a_def g_def by (rule audit_row_nth(2) [OF assms i])
  have sel: "df_is_selected_final a =
      (df_filter_cooldown_pass a \<and> df_filter_result_pass a
       \<and> df_filter_wrapup_pass a \<and> df_filter_phone_pass a)"
    unfolding a by (rule df_row_of_derived)
  have reason: "df_drop_reason a =
      assign_drop_reason (df_filter_cooldown_pass a) (df_filter_result_pass a)
        (df_filter_wrapup_pass a) (df_filter_phone_pass a)"
    unfolding a by (rule df_row_of_derived)
  have at: "df_selected_at a = (if df_is_selected_final a then isoformat (today now) else [])"
    unfolding a by (rule df_row_of_derived)
  have again: "df_allowed_again_at a =
      (if df_is_selected_final a then isoformat (add_days 7 (today now)) else [])"
    unfolding a by (rule df_row_of_derived)
  show "df_source_filename (audit_df out ! i) = g_name genesys"
    and "df_campaign_run_at (audit_df out ! i) = run_ts now"
    and "df_borrower_id_norm (audit_df out ! i)
          = strip (astype_str (g_borrower_id (g_rows genesys ! i)))"
    and "df_inin_outbound_id (audit_df out ! i)
          = strip (astype_str (g_inin_outbound_id (g_rows genesys ! i)))"
    and "df_full_name (audit_df out ! i) = g_full_name (g_rows genesys ! i)"
    and "df_phone_raw (audit_df out ! i) = fillna_empty (g_phone (g_rows genesys ! i))"
    and "df_phone_full (audit_df out ! i) = filter isdigit (df_phone_raw (audit_df out ! i))"
    and "df_phone_10 (audit_df out ! i) = last_chars 10 (df_phone_full (audit_df out ! i))"
    and "df_first_name (audit_df out ! i) = first_name (g_full_name (g_rows genesys ! i))"
    and "df_filter_cooldown_pass (audit_df out ! i)
          = (df_borrower_id_norm (audit_df out ! i) \<notin> blocked_borrowers (today now) ledger)"
    and "df_filter_result_pass (audit_df out ! i)
          = (fillna_empty (g_last_result (g_rows genesys ! i)) = []
             \<or> startswith (fillna_empty (g_last_result (g_rows genesys ! i))) ''ININ-OUTBOUND'')"
    and "df_filter_wrapup_pass (audit_df out ! i)
          = (lower (strip (fillna_empty (g_last_wrapup (g_rows genesys ! i)))) = []
             \<or> lower (strip (fillna_empty (g_last_wrapup (g_rows genesys ! i))))
                  \<in> ALLOWED_WRAPUPS)"
    and "df_filter_phone_pass (audit_df out ! i) = (length (df_phone_10 (audit_df out ! i)) = 10)"
    unfolding a_def [symmetric] g_def [symmetric]
    unfolding a by (simp_all only: df_row_of_cells df_row_of_filters)
  show "df_is_selected_final (audit_df out ! i)
          = (df_filter_cooldown_pass (audit_df out ! i) \<and> df_filter_result_pass (audit_df out ! i)
             \<and> df_filter_wrapup_pass (audit_df out ! i) \<and> df_filter_phone_pass (audit_df out ! i))"
    using sel by (simp add: a_def)
  show "df_drop_reason (audit_df out ! i)
          = first_failing [(df_filter_cooldown_pass (audit_df out ! i), ''cooldown''),
                           (df_filter_result_pass (audit_df out ! i), ''result''),
                           (df_filter_wrapup_pass (audit_df out ! i), ''wrapup''),
                           (df_filter_phone_pass (audit_df out ! i), ''invalid_phone'')]"
    using reason unfolding assign_drop_reason_first_failing by (simp add: a_def)
  show "df_selected_at (audit_df out ! i)
          = (if df_is_selected_final (audit_df out ! i) then isoformat (today now) else [])"
    using at by (simp add: a_def)
  show "df_allowed_again_at (audit_df out ! i)
          = (if df_is_selected_final (audit_df out ! i)
             then isoformat (add_days 7 (today now)) else [])"
    using again by (simp add: a_def)
  show "df_selected_at (audit_df out ! i) = [] \<longleftrightarrow> \<not> df_is_selected_final (audit_df out ! i)"
    using at by (simp add: a_def isoformat_not_empty)
  show "df_allowed_again_at (audit_df out ! i) = []
          \<longleftrightarrow> \<not> df_is_selected_final (audit_df out ! i)"
    using again by (simp add: a_def isoformat_not_empty)
qed

theorem audit_complete_witness:
  "compute_outputs ex_clock ex_genesys (Some ex_history) = Inr ex_outputs
   \<and> load_history_df (Some ex_history) = Inr ex_ledger
   \<and> length (audit_df ex_outputs) = length (g_rows ex_genesys)
   \<and> 1 < length (g_rows ex_genesys)
   \<and> df_borrower_id_norm (audit_df ex_outputs ! 1)
       = strip (astype_str (g_borrower_id (g_rows ex_genesys ! 1)))
   \<and> \<not> df_is_selected_final (audit_df ex_outputs ! 1)
   \<and> df_selected_at (audit_df ex_outputs ! 1) = []
   \<and> df_allowed_again_at (audit_df ex_outputs ! 1) = []"
proof -
  have i1: "1 < length (g_rows ex_genesys)"
    by (simp add: ex_genesys_def)
  have n1: "\<not> df_is_selected_final (audit_df ex_outputs ! 1)"
    by (simp add: ex_outputs_def ex_audit_def ex_audit_row_def)
  note t = audit_complete [OF ex_run ex_load]
  from t have len: "length (audit_df ex_outputs) = length (g_rows ex_genesys)" by blast
  from t i1 have b1: "df_borrower_id_norm (audit_df ex_outputs ! 1)
      = strip (astype_str (g_borrower_id (g_rows ex_genesys ! 1)))" by blast
  from t i1 n1 have e1: "df_selected_at (audit_df ex_outputs ! 1) = []" by blast
  from t i1 n1 have e2: "df_allowed_again_at (audit_df ex_outputs ! 1) = []" by blast
  from ex_run ex_load len i1 b1 n1 e1 e2 show ?thesis by blast
qed

text \<open>
  C10. In every run that returns, the four removal counters and the selected counter
  count the audit rows by drop reason, so that together they add up to the number of
  input records; the campaign counter equals the selected counter, and the counter of
  new ledger entries is at most the selected counter.
\<close>

theorem metrics_consistent:
  assumes "compute_outputs now genesys history = Inr out"
  shows "removidos_cooldown (out_metrics out)
           = length (filter (\<lambda>a. df_drop_reason a = ''cooldown'') (audit_df out))
         \<and> removidos_result (out_metrics out)
           = length (filter (\<lambda>a. df_drop_reason a = ''result'') (audit_df out))
         \<and> removidos_wrapup (out_metrics out)
           = length (filter (\<lambda>a. df_drop_reason a = ''wrapup'') (audit_df out))
         \<and> removidos_phone (out_metrics out)
           = length (filter (\<lambda>a. df_drop_reason a = ''invalid_phone'') (audit_df out))
         \<and> seleccionados_finales (out_metrics out)
           = length (filter (\<lambda>a. df_drop_reason a = ''selected'') (audit_df out))
         \<and> registros_entrada (out_metrics out) = length (g_rows genesys)
         \<and> removidos_cooldown (out_metrics out) + removidos_result (out_metrics out)
             + removidos_wrapup (out_metrics out) + removidos_phone (out_metrics out)
             + seleccionados_finales (out_metrics out) = registros_entrada (out_metrics out)
         \<and> registros_campana (out_metrics out) = seleccionados_finales (out_metrics out)
         \<and> nuevos_en_historico (out_metrics out) \<le> seleccionados_finales (out_metrics out)"
proof -
  obtain ledger where o: "out = run_pipeline now (g_name genesys) (g_rows genesys) ledger"
    using compute_outputs_Inr [OF assms] by blast
  define df where "df = build_df (g_name genesys) now (g_rows genesys) ledger"
  have audit: "audit_df out = df"
    by (simp add: o df_def audit_df_run)
  have m: "out_metrics out = run_metrics df (new_history_rows df ledger) (campaign_of df)"
    by (simp add: o df_def run_pipeline_def Let_def)
  have reason: "\<And>a. a \<in> set df \<Longrightarrow>
      df_drop_reason a = assign_drop_reason (df_filter_cooldown_pass a) (df_filter_result_pass a)
         (df_filter_wrapup_pass a) (df_filter_phone_pass a)"
    unfolding df_def by (rule build_df_reason)
  have sel: "filter df_is_selected_final df =
      filter (\<lambda>a. df_filter_cooldown_pass a \<and> df_filter_result_pass a
                    \<and> df_filter_wrapup_pass a \<and> df_filter_phone_pass a) df"
    unfolding df_def by (rule build_df_selected)
  have c1: "removidos_cooldown (out_metrics out)
      = length (filter (\<lambda>a. df_drop_reason a = ''cooldown'') df)"
    unfolding m run_metrics_def
    by (simp add: reason assign_drop_reason_cases cong: filter_cong)
  have c2: "removidos_result (out_metrics out)
      = length (filter (\<lambda>a. df_drop_reason a = ''result'') df)"
    unfolding m run_metrics_def
    by (simp add: reason assign_drop_reason_cases cong: filter_cong)
  have c3: "removidos_wrapup (out_metrics out)
      = length (filter (\<lambda>a. df_drop_reason a = ''wrapup'') df)"
    unfolding m run_metrics_def
    by (simp add: reason assign_drop_reason_cases cong: filter_cong)
  have c4: "removidos_phone (out_metrics out)
      = length (filter (\<lambda>a. df_drop_reason a = ''invalid_phone'') df)"
    unfolding m run_metrics_def
    by (simp add: reason assign_drop_reason_cases cong: filter_cong)
  have c5: "seleccionados_finales (out_metrics out)
      = length (filter (\<lambda>a. df_drop_reason a = ''selected'') df)"
    unfolding m run_metrics_def
    by (simp add: sel reason assign_drop_reason_selected cong: filter_cong)
  have n: "registros_entrada (out_metrics out) = length (g_rows genesys)"
    unfolding m run_metrics_def by (simp add: df_def build_df_def)
  have total: "removidos_cooldown (out_metrics out) + removidos_result (out_metrics out)
      + removidos_wrapup (out_metrics out) + removidos_phone (out_metrics out)
      + seleccionados_finales (out_metrics out) = registros_entrada (out_metrics out)"
    unfolding m run_metrics_def
    using length_filter_stages [of df_filter_cooldown_pass df df_filter_result_pass
        df_filter_wrapup_pass df_filter_phone_pass]
    by (simp add: sel)
  have camp: "registros_campana (out_metrics out) = seleccionados_finales (out_metrics out)"
    unfolding m run_metrics_def by (simp add: campaign_of_def)
  have new: "nuevos_en_historico (out_metrics out) \<le> seleccionados_finales (out_metrics out)"
    unfolding m run_metrics_def
    using surviving_candidates_length [of df ledger]
    by (simp add: new_history_rows_length)
  show ?thesis
    unfolding audit using c1 c2 c3 c4 c5 n total camp new by simp
qed

theorem metrics_consistent_witness:
  "compute_outputs ex_clock ex_genesys (Some ex_history) = Inr ex_outputs
   \<and> removidos_cooldown (out_metrics ex_outputs) + removidos_result (out_metrics ex_outputs)
       + removidos_wrapup (out_metrics ex_outputs) + removidos_phone (out_metrics ex_outputs)
       + seleccionados_finales (out_metrics ex_outputs) = registros_entrada (out_metrics ex_outputs)
   \<and> registros_entrada (out_metrics ex_outputs) = 4
   \<and> registros_campana (out_metrics ex_outputs) = seleccionados_finales (out_metrics ex_outputs)
   \<and> nuevos_en_historico (out_metrics ex_outputs) \<le> seleccionados_finales (out_metrics ex_outputs)"
proof -
  note t = metrics_consistent [OF ex_run]
  have n: "length (g_rows ex_genesys) = 4"
    by (simp add: ex_genesys_def)
  from t n have "registros_entrada (out_metrics ex_outputs) = 4" by simp
  with ex_run t show ?thesis by blast
qed

end
